theory Spec2Isabelle
  imports Main "HOL-Library.Multiset"
begin

section \<open>Python values\<close>

text \<open>
  A Python \<open>str\<close> is a sequence of Unicode code points, so a string is a list of
  natural numbers; \<open>lit\<close> turns a literal of the source into that representation.
\<close>

type_synonym pystr = "nat list"

definition lit :: "string \<Rightarrow> pystr" where
  "lit cs = map of_char cs"

text \<open>
  The values that a decoded request body, a result row and the argument of \<open>jsonify\<close>
  are made of. A dict is the list of its items (keys distinct, in insertion order).
  \<open>PFloat m e\<close> stands for a float; the handlers never look inside one.
\<close>

datatype pyval =
    PNone
  | PBool bool
  | PInt int
  | PFloat int int
  | PStr pystr
  | PList "pyval list"
  | PDict "(pystr \<times> pyval) list"
  | PDatetime int

fun type_name :: "pyval \<Rightarrow> pystr" where
  "type_name PNone = lit ''NoneType''"
| "type_name (PBool _) = lit ''bool''"
| "type_name (PInt _) = lit ''int''"
| "type_name (PFloat _ _) = lit ''float''"
| "type_name (PStr _) = lit ''str''"
| "type_name (PList _) = lit ''list''"
| "type_name (PDict _) = lit ''dict''"
| "type_name (PDatetime _) = lit ''datetime.datetime''"

datatype exn =
    AttributeError pystr
  | ValueError pystr
  | TypeError pystr
  | BadRequest pystr
  | DatabaseError pystr

text \<open>\<open>str(e)\<close>: the message the exception was raised with.\<close>

fun str_exn :: "exn \<Rightarrow> pystr" where
  "str_exn (AttributeError m) = m"
| "str_exn (ValueError m) = m"
| "str_exn (TypeError m) = m"
| "str_exn (BadRequest m) = m"
| "str_exn (DatabaseError m) = m"

definition no_attribute :: "pyval \<Rightarrow> string \<Rightarrow> exn" where
  "no_attribute v a =
     AttributeError (lit [CHR 0x27] @ type_name v @ lit [CHR 0x27]
                     @ lit '' object has no attribute '' @ lit [CHR 0x27] @ lit a
                     @ lit [CHR 0x27])"

text \<open>
  \<open>str.isspace\<close> on one code point, as CPython decides it: the ASCII table for code
  points below 128, the Unicode whitespace table above.
\<close>

definition isspace :: "nat \<Rightarrow> bool" where
  "isspace c =
     ((9 \<le> c \<and> c \<le> 13) \<or> (28 \<le> c \<and> c \<le> 32) \<or> c = 133 \<or> c = 160 \<or> c = 5760
      \<or> (8192 \<le> c \<and> c \<le> 8202) \<or> c = 8232 \<or> c = 8233 \<or> c = 8239 \<or> c = 8287
      \<or> c = 12288)"

text \<open>\<open>s.strip()\<close>: leading and trailing whitespace removed.\<close>

definition strip :: "pystr \<Rightarrow> pystr" where
  "strip s = rev (dropWhile isspace (rev (dropWhile isspace s)))"

text \<open>\<open>sep.join(parts)\<close>.\<close>

fun join :: "pystr \<Rightarrow> pystr list \<Rightarrow> pystr" where
  "join sep [] = []"
| "join sep [x] = x"
| "join sep (x # y # ys) = x @ sep @ join sep (y # ys)"

text \<open>\<open>any(xs)\<close> on a list of strings: a string is true when it is not empty.\<close>

definition any_py :: "pystr list \<Rightarrow> bool" where
  "any_py xs = list_ex (\<lambda>x. x \<noteq> []) xs"

text \<open>\<open>data.get(key, default)\<close>: only a dict has the method.\<close>

fun py_get :: "pyval \<Rightarrow> pystr \<Rightarrow> pyval \<Rightarrow> exn + pyval" where
  "py_get (PDict items) key dflt =
     Inr (case map_of items key of None \<Rightarrow> dflt | Some v \<Rightarrow> v)"
| "py_get v key dflt = Inl (no_attribute v ''get'')"

text \<open>\<open>v.strip()\<close>: only a \<open>str\<close> has the method.\<close>

fun py_strip :: "pyval \<Rightarrow> exn + pystr" where
  "py_strip (PStr s) = Inr (strip s)"
| "py_strip v = Inl (no_attribute v ''strip'')"


section \<open>The store and its driver\<close>

text \<open>
  A row of \<open>business_cards\<close>, with the columns the handlers select. The text columns
  are nullable; the service itself never writes a NULL.
\<close>

record row =
  id_col :: int
  full_name :: "pystr option"
  email :: "pystr option"
  phone :: "pystr option"
  company_name :: "pystr option"
  website :: "pystr option"
  "notes" :: "pystr option"
  dt :: int

text \<open>The driver calls a handler makes on its connection and cursor.\<close>

datatype db_call = Connect | Cursor | Execute | Fetch | Commit | CloseCursor | CloseConn

text \<open>
  What a request finds outside the program: the \<open>DATABASE_URL\<close> variable, for each
  driver call the error it raises (if it does), and the store's clock.
\<close>

record env =
  database_url :: "pystr option"
  fault :: "db_call \<Rightarrow> pystr option"
  now :: int

text \<open>
  The store: the committed table, the id sequence, the rows the open transaction has
  inserted and not committed, and the driver calls that completed so far.
\<close>

record db =
  table :: "row list"
  next_id :: int
  pending :: "row list"
  log :: "db_call list"

text \<open>
  A computation runs on the store and either returns or raises; the store it leaves
  is kept in both cases.
\<close>

type_synonym 'a io = "db \<Rightarrow> (exn + 'a) \<times> db"

definition ret :: "'a \<Rightarrow> 'a io" where
  "ret x = (\<lambda>d. (Inr x, d))"

definition raise :: "exn \<Rightarrow> 'a io" where
  "raise ex = (\<lambda>d. (Inl ex, d))"

definition lift :: "exn + 'a \<Rightarrow> 'a io" where
  "lift r = (\<lambda>d. (r, d))"

definition bnd :: "'a io \<Rightarrow> ('a \<Rightarrow> 'b io) \<Rightarrow> 'b io" where
  "bnd m f = (\<lambda>d. case m d of (Inl ex, d') \<Rightarrow> (Inl ex, d') | (Inr x, d') \<Rightarrow> f x d')"

text \<open>
  One driver call: it raises the environment's error and changes nothing, or it has
  its effect and is recorded.
\<close>

definition driver :: "env \<Rightarrow> db_call \<Rightarrow> (db \<Rightarrow> 'a \<times> db) \<Rightarrow> 'a io" where
  "driver e c f =
     (\<lambda>d. case fault e c of
             Some m \<Rightarrow> (Inl (DatabaseError m), d)
           | None \<Rightarrow> (case f d of (x, d') \<Rightarrow> (Inr x, d'\<lparr>log := log d' @ [c]\<rparr>)))"

text \<open>
  \<open>get_db_connection\<close>: a missing or empty \<open>DATABASE_URL\<close> raises \<open>ValueError\<close>;
  the \<open>except\<close> clause only prints and re-raises. A new connection starts with an
  empty transaction.
\<close>

definition get_db_connection :: "env \<Rightarrow> unit io" where
  "get_db_connection e =
     (case database_url e of
        None \<Rightarrow> raise (ValueError (lit ''DATABASE_URL environment variable is required''))
      | Some url \<Rightarrow>
          if url = [] then
            raise (ValueError (lit ''DATABASE_URL environment variable is required''))
          else driver e Connect (\<lambda>d. ((), d\<lparr>pending := []\<rparr>)))"

definition cursor :: "env \<Rightarrow> unit io" where
  "cursor e = driver e Cursor (\<lambda>d. ((), d))"

text \<open>
  Modelled from the spec: the table's definition is not in the repository, so how the
  store fills \<open>id\<close> and \<open>dt\<close> follows the spec's data model: \<open>id\<close> is "assigned by the
  store on insert, immutable, unique", each one "strictly greater than any previously
  assigned id", and \<open>dt\<close> is "assigned by the store at insert time". The statement
  returns the new id; the sequence does not go back when a transaction is dropped.
\<close>

definition execute_insert ::
  "env \<Rightarrow> pystr \<times> pystr \<times> pystr \<times> pystr \<times> pystr \<times> pystr \<Rightarrow> int list io" where
  "execute_insert e data_to_save =
     (case data_to_save of (v1, v2, v3, v4, v5, v6) \<Rightarrow>
        driver e Execute (\<lambda>d.
          ([next_id d],
           d\<lparr>pending := pending d @
                 [\<lparr>id_col = next_id d, full_name = Some v1, email = Some v2, phone = Some v3,
                   company_name = Some v4, website = Some v5, notes = Some v6, dt = now e\<rparr>],
             next_id := next_id d + 1\<rparr>)))"

text \<open>
  \<open>ORDER BY dt DESC\<close>: the only sort key is \<open>dt\<close>. SQL leaves the order of rows with
  equal \<open>dt\<close> open; this sort keeps them in table order.
\<close>

definition order_by_dt_desc :: "row list \<Rightarrow> row list" where
  "order_by_dt_desc rows = sort_key (\<lambda>r. - dt r) rows"

text \<open>A statement sees the committed table and the rows of its own transaction.\<close>

definition execute_select_all :: "env \<Rightarrow> row list io" where
  "execute_select_all e = driver e Execute (\<lambda>d. (order_by_dt_desc (table d @ pending d), d))"

definition execute_select_by_id :: "env \<Rightarrow> int \<Rightarrow> row list io" where
  "execute_select_by_id e card_id =
     driver e Execute (\<lambda>d. (filter (\<lambda>r. id_col r = card_id) (table d @ pending d), d))"

definition fetchone :: "env \<Rightarrow> 'a list \<Rightarrow> 'a option io" where
  "fetchone e rs = driver e Fetch (\<lambda>d. (case rs of [] \<Rightarrow> None | r # _ \<Rightarrow> Some r, d))"

definition fetchall :: "env \<Rightarrow> 'a list \<Rightarrow> 'a list io" where
  "fetchall e rs = driver e Fetch (\<lambda>d. (rs, d))"

definition commit :: "env \<Rightarrow> unit io" where
  "commit e = driver e Commit (\<lambda>d. ((), d\<lparr>table := table d @ pending d, pending := []\<rparr>))"

definition cursor_close :: "env \<Rightarrow> unit io" where
  "cursor_close e = driver e CloseCursor (\<lambda>d. ((), d))"

text \<open>Closing a connection drops what its transaction has not committed.\<close>

definition conn_close :: "env \<Rightarrow> unit io" where
  "conn_close e = driver e CloseConn (\<lambda>d. ((), d\<lparr>pending := []\<rparr>))"

text \<open>\<open>cur.fetchone()['id']\<close>: \<open>None\<close> cannot be subscripted.\<close>

definition subscript_id :: "int option \<Rightarrow> int io" where
  "subscript_id r =
     (case r of
        None \<Rightarrow> raise (TypeError (lit [CHR 0x27] @ lit ''NoneType'' @ lit [CHR 0x27]
                                 @ lit '' object is not subscriptable''))
      | Some i \<Rightarrow> ret i)"

text \<open>\<open>dict(card)\<close> for a row of the \<open>RealDictCursor\<close>.\<close>

definition text_col :: "pystr option \<Rightarrow> pyval" where
  "text_col v = (case v of None \<Rightarrow> PNone | Some s \<Rightarrow> PStr s)"

definition dict_of_row :: "row \<Rightarrow> pyval" where
  "dict_of_row r =
     PDict [(lit ''id'', PInt (id_col r)),
            (lit ''full_name'', text_col (full_name r)),
            (lit ''email'', text_col (email r)),
            (lit ''phone'', text_col (phone r)),
            (lit ''company_name'', text_col (company_name r)),
            (lit ''website'', text_col (website r)),
            (lit ''notes'', text_col (notes r)),
            (lit ''dt'', PDatetime (dt r))]"


section \<open>Requests and responses\<close>

text \<open>
  A request carries what the handler reads from it: when \<open>request.is_json\<close> holds, the
  result of \<open>request.get_json()\<close> (the decoded value, or the error of a body that does
  not parse); otherwise the items of \<open>request.form.to_dict()\<close>.
\<close>

datatype request =
    JsonRequest "exn + pyval"
  | FormRequest "(pystr \<times> pystr) list"

text \<open>What a handler returns: the argument of \<open>jsonify\<close> and the status code.\<close>

record response =
  status :: nat
  body :: pyval

fun get_data :: "request \<Rightarrow> exn + pyval" where
  "get_data (JsonRequest r) = r"
| "get_data (FormRequest items) = Inr (PDict (map (\<lambda>(k, v). (k, PStr v)) items))"

text \<open>
  A step that may raise, followed by the rest; \<open>field\<close> is
  \<open>data.get(key, '').strip()\<close>.
\<close>

definition and_then :: "exn + 'a \<Rightarrow> ('a \<Rightarrow> exn + 'b) \<Rightarrow> exn + 'b" where
  "and_then r f = (case r of Inl ex \<Rightarrow> Inl ex | Inr x \<Rightarrow> f x)"

definition field :: "pyval \<Rightarrow> string \<Rightarrow> exn + pystr" where
  "field data key = and_then (py_get data (lit key) (PStr [])) py_strip"

text \<open>
  The eight assignments at the head of \<open>process_business_card\<close>, in the source's
  order: the first one that raises ends the extraction.
\<close>

definition extract_fields ::
  "pyval \<Rightarrow> exn + (pystr \<times> pystr \<times> pystr \<times> pystr \<times> pystr \<times> pystr \<times> pystr \<times> pystr)" where
  "extract_fields data =
     and_then (field data ''name'') (\<lambda>name.
     and_then (field data ''email'') (\<lambda>email.
     and_then (field data ''phone'') (\<lambda>phone.
     and_then (field data ''company'') (\<lambda>company.
     and_then (field data ''website'') (\<lambda>website.
     and_then (field data ''title'') (\<lambda>title.
     and_then (field data ''address'') (\<lambda>address.
     and_then (field data ''notes'') (\<lambda>additional_notes.
       Inr (name, email, phone, company, website, title, address, additional_notes)))))))))"

text \<open>The combined notes: \<open>notes_parts\<close> filled by the three \<open>if\<close>s, then joined.\<close>

definition combine_notes :: "pystr \<Rightarrow> pystr \<Rightarrow> pystr \<Rightarrow> pystr" where
  "combine_notes title address additional_notes =
     (let notes_parts = [];
          notes_parts = (if title \<noteq> [] then notes_parts @ [lit ''Title: '' @ title]
                         else notes_parts);
          notes_parts = (if address \<noteq> [] then notes_parts @ [lit ''Address: '' @ address]
                         else notes_parts);
          notes_parts = (if additional_notes \<noteq> []
                         then notes_parts @ [lit ''Notes: '' @ additional_notes]
                         else notes_parts)
      in join (lit [CHR 0x0A]) notes_parts)"

definition validation_error :: response where
  "validation_error =
     \<lparr>status = 400,
      body = PDict [(lit ''error'',
                     PStr (lit ''At least one of name, email, phone, or company is required''))]\<rparr>"

definition error_response :: "nat \<Rightarrow> pystr \<Rightarrow> response" where
  "error_response code msg = \<lparr>status = code, body = PDict [(lit ''error'', PStr msg)]\<rparr>"


section \<open>The handlers\<close>

text \<open>The \<open>try\<close> block of \<open>process_business_card\<close>.\<close>

definition process_business_card_try :: "env \<Rightarrow> request \<Rightarrow> response io" where
  "process_business_card_try e rq =
     bnd (lift (get_data rq)) (\<lambda>data.
     bnd (lift (extract_fields data))
       (\<lambda>(name, email, phone, company, website, title, address, additional_notes).
          if \<not> any_py [name, email, phone, company] then ret validation_error
          else
            let notes = combine_notes title address additional_notes in
            bnd (get_db_connection e) (\<lambda>_.
            bnd (cursor e) (\<lambda>_.
            bnd (execute_insert e (name, email, phone, company, website, notes)) (\<lambda>rs.
            bnd (fetchone e rs) (\<lambda>r.
            bnd (subscript_id r) (\<lambda>card_id.
            bnd (commit e) (\<lambda>_.
            bnd (cursor_close e) (\<lambda>_.
            bnd (conn_close e) (\<lambda>_.
            ret \<lparr>status = 200,
                 body = PDict [(lit ''message'', PStr (lit ''Business card saved successfully'')),
                               (lit ''id'', PInt card_id),
                               (lit ''data'',
                                PDict [(lit ''name'', PStr name),
                                       (lit ''email'', PStr email),
                                       (lit ''phone'', PStr phone),
                                       (lit ''company'', PStr company),
                                       (lit ''website'', PStr website),
                                       (lit ''title'', PStr title),
                                       (lit ''address'', PStr address),
                                       (lit ''notes'', PStr additional_notes)])]\<rparr>))))))))))"

text \<open>The handler: the \<open>except\<close> clause turns any exception into a 500 response.\<close>

definition process_business_card :: "env \<Rightarrow> request \<Rightarrow> db \<Rightarrow> response \<times> db" where
  "process_business_card e rq d =
     (case process_business_card_try e rq d of
        (Inr resp, d') \<Rightarrow> (resp, d')
      | (Inl ex, d') \<Rightarrow> (error_response 500 (lit ''Save failed: '' @ str_exn ex), d'))"

definition get_cards_try :: "env \<Rightarrow> response io" where
  "get_cards_try e =
     bnd (get_db_connection e) (\<lambda>_.
     bnd (cursor e) (\<lambda>_.
     bnd (execute_select_all e) (\<lambda>rs.
     bnd (fetchall e rs) (\<lambda>cards.
     bnd (cursor_close e) (\<lambda>_.
     bnd (conn_close e) (\<lambda>_.
     ret \<lparr>status = 200,
          body = PDict [(lit ''cards'', PList (map dict_of_row cards)),
                        (lit ''count'', PInt (int (length cards)))]\<rparr>))))))"

definition get_cards :: "env \<Rightarrow> db \<Rightarrow> response \<times> db" where
  "get_cards e d =
     (case get_cards_try e d of
        (Inr resp, d') \<Rightarrow> (resp, d')
      | (Inl ex, d') \<Rightarrow> (error_response 500 (lit ''Failed to fetch cards: '' @ str_exn ex), d'))"

definition get_card_try :: "env \<Rightarrow> int \<Rightarrow> response io" where
  "get_card_try e card_id =
     bnd (get_db_connection e) (\<lambda>_.
     bnd (cursor e) (\<lambda>_.
     bnd (execute_select_by_id e card_id) (\<lambda>rs.
     bnd (fetchone e rs) (\<lambda>card.
     bnd (cursor_close e) (\<lambda>_.
     bnd (conn_close e) (\<lambda>_.
     (case card of
        None \<Rightarrow> ret (error_response 404 (lit ''Card not found''))
      | Some r \<Rightarrow> ret \<lparr>status = 200, body = PDict [(lit ''card'', dict_of_row r)]\<rparr>)))))))"

definition get_card :: "env \<Rightarrow> int \<Rightarrow> db \<Rightarrow> response \<times> db" where
  "get_card e card_id d =
     (case get_card_try e card_id d of
        (Inr resp, d') \<Rightarrow> (resp, d')
      | (Inl ex, d') \<Rightarrow> (error_response 500 (lit ''Failed to fetch card: '' @ str_exn ex), d'))"


section \<open>Routing, and the notions the properties are stated with\<close>

text \<open>The three routes that reach the store, and a run of requests served one by one.\<close>

datatype call =
    ProcessCard env request
  | GetCards env
  | GetCard env int

fun dispatch :: "call \<Rightarrow> db \<Rightarrow> response \<times> db" where
  "dispatch (ProcessCard e rq) d = process_business_card e rq d"
| "dispatch (GetCards e) d = get_cards e d"
| "dispatch (GetCard e card_id) d = get_card e card_id d"

fun serve :: "call list \<Rightarrow> db \<Rightarrow> db" where
  "serve [] d = d"
| "serve (c # cs) d = serve cs (snd (dispatch c d))"

text \<open>The driver calls of a write and of a read, in the order the handlers make them.\<close>

definition create_calls :: "db_call list" where
  "create_calls = [Connect, Cursor, Execute, Fetch, Commit, CloseCursor, CloseConn]"

definition read_calls :: "db_call list" where
  "read_calls = [Connect, Cursor, Execute, Fetch, CloseCursor, CloseConn]"

text \<open>The store answers: the connection string is set and none of the calls raises.\<close>

definition url_set :: "env \<Rightarrow> bool" where
  "url_set e = (case database_url e of None \<Rightarrow> False | Some url \<Rightarrow> url \<noteq> [])"

definition store_ok :: "env \<Rightarrow> db_call list \<Rightarrow> bool" where
  "store_ok e calls = (url_set e \<and> list_all (\<lambda>c. fault e c = None) calls)"

text \<open>
  The ids in the table are unique and below the sequence: what the store's key and
  sequence maintain.
\<close>

definition store_wf :: "db \<Rightarrow> bool" where
  "store_wf d =
     (distinct (map id_col (table d)) \<and> list_all (\<lambda>r. id_col r < next_id d) (table d))"

text \<open>The \<open>id\<close> of a response body, as a client reads it.\<close>

definition response_id :: "response \<Rightarrow> int option" where
  "response_id resp =
     (case body resp of
        PDict items \<Rightarrow> (case map_of items (lit ''id'') of Some (PInt i) \<Rightarrow> Some i | _ \<Rightarrow> None)
      | _ \<Rightarrow> None)"

text \<open>Every connection opened in a sequence of driver calls was closed in it.\<close>

definition connection_released :: "db_call list \<Rightarrow> bool" where
  "connection_released calls = (count_list calls Connect = count_list calls CloseConn)"

text \<open>
  The combined notes as the spec words them: one labelled line for each sub-field that
  is not empty, in the order title, address, notes, joined by newlines.
\<close>

definition spec_notes :: "pystr \<Rightarrow> pystr \<Rightarrow> pystr \<Rightarrow> pystr" where
  "spec_notes title address additional_notes =
     join (lit [CHR 0x0A])
       (map (\<lambda>(label, v). lit label @ v)
          (filter (\<lambda>(label, v). v \<noteq> [])
             [(''Title: '', title), (''Address: '', address), (''Notes: '', additional_notes)]))"


text \<open>
  The string a request body binds to a field: the empty string when the key is absent,
  nothing when the value is not a string.
\<close>

definition raw_field :: "(pystr \<times> pyval) list \<Rightarrow> string \<Rightarrow> pystr option" where
  "raw_field items key =
     (case map_of items (lit key) of
        None \<Rightarrow> Some []
      | Some (PStr s) \<Rightarrow> Some s
      | Some _ \<Rightarrow> None)"

text \<open>
  Trimmed, as the spec's glossary has it: \<open>t\<close> is \<open>raw\<close> with leading and trailing
  whitespace removed. So \<open>raw\<close> is some whitespace, then \<open>t\<close>, then some whitespace, and
  \<open>t\<close> neither starts nor ends with whitespace.
\<close>

definition trimmed_from :: "pystr \<Rightarrow> pystr \<Rightarrow> bool" where
  "trimmed_from raw t =
     (list_ex (\<lambda>i. list_all isspace (take i raw) \<and> take (length t) (drop i raw) = t
                 \<and> list_all isspace (drop (i + length t) raw))
        [0..<Suc (length raw)]
      \<and> (t = [] \<or> (\<not> isspace (hd t) \<and> \<not> isspace (last t))))"

text \<open>
  The request binds the field to a string whose trimmed form is \<open>t\<close>.
\<close>

definition field_trimmed_to :: "(pystr \<times> pyval) list \<Rightarrow> string \<Rightarrow> pystr \<Rightarrow> bool" where
  "field_trimmed_to items key t =
     (case raw_field items key of None \<Rightarrow> False | Some raw \<Rightarrow> trimmed_from raw t)"


section \<open>Sample inputs\<close>

text \<open>
  A store that answers at time \<open>t\<close>, one whose driver raises at one call, the empty
  table, and the request of \<open>test_api.py\<close>.
\<close>

definition env_ok :: "int \<Rightarrow> env" where
  "env_ok t = \<lparr>database_url = Some (lit ''postgresql://localhost/cards''), fault = (\<lambda>_. None),
              now = t\<rparr>"

definition env_failing :: "db_call \<Rightarrow> env" where
  "env_failing c =
     \<lparr>database_url = Some (lit ''postgresql://localhost/cards''),
      fault = (\<lambda>c'. if c' = c then Some (lit ''connection reset'') else None), now = 0\<rparr>"

definition empty_db :: db where
  "empty_db = \<lparr>table = [], next_id = 1, pending = [], log = []\<rparr>"

definition john_doe :: request where
  "john_doe =
     JsonRequest (Inr (PDict
       [(lit ''name'', PStr (lit ''John Doe'')),
        (lit ''email'', PStr (lit ''john@techcorp.com'')),
        (lit ''phone'', PStr (lit ''5551234567'')),
        (lit ''company'', PStr (lit ''Tech Corp'')),
        (lit ''title'', PStr (lit ''Software Engineer'')),
        (lit ''website'', PStr (lit ''techcorp.com'')),
        (lit ''address'', PStr (lit ''123 Main St, City, State'')),
        (lit ''notes'', PStr (lit ''Met at tech conference 2024''))]))"

text \<open>
  A form request whose values carry whitespace to trim, and the items of its decoded body.
\<close>

definition jane_roe :: request where
  "jane_roe =
     FormRequest
       [(lit ''name'', lit ''  Jane Roe ''),
        (lit ''email'', lit ''jane@example.org'' @ lit [CHR 0x0A]),
        (lit ''phone'', lit ''   ''),
        (lit ''title'', lit [CHR 0x09] @ lit ''CTO''),
        (lit ''notes'', lit '' call back  '')]"

definition jane_roe_items :: "(pystr \<times> pyval) list" where
  "jane_roe_items =
       [(lit ''name'', PStr (lit ''  Jane Roe '')),
        (lit ''email'', PStr (lit ''jane@example.org'' @ lit [CHR 0x0A])),
        (lit ''phone'', PStr (lit ''   '')),
        (lit ''title'', PStr (lit [CHR 0x09] @ lit ''CTO'')),
        (lit ''notes'', PStr (lit '' call back  ''))]"

text \<open>The first of the given driver calls that raises, with its message.\<close>

fun first_fault :: "env \<Rightarrow> db_call list \<Rightarrow> pystr option" where
  "first_fault e [] = None"
| "first_fault e (c # cs) = (case fault e c of Some m \<Rightarrow> Some m | None \<Rightarrow> first_fault e cs)"


section \<open>Basic facts\<close>

lemma lit_eq_iff [simp]: "lit a = lit b \<longleftrightarrow> a = b"
  unfolding lit_def by (rule inj_map_eq_map) (simp add: inj_on_def)

lemma lit_Nil [simp]: "lit [] = []"
  by (simp add: lit_def)

lemma lit_eq_Nil [simp]: "lit a = [] \<longleftrightarrow> a = []"
  by (simp add: lit_def)

lemma bnd_ret [simp]: "bnd (ret x) f d = f x d"
  by (simp add: bnd_def ret_def)

lemma bnd_raise [simp]: "bnd (raise ex) f d = (Inl ex, d)"
  by (simp add: bnd_def raise_def)

lemma bnd_lift [simp]:
  "bnd (lift r) f d = (case r of Inl ex \<Rightarrow> (Inl ex, d) | Inr x \<Rightarrow> f x d)"
  by (simp add: bnd_def lift_def split: sum.splits)

lemma ret_apply [simp]: "ret x d = (Inr x, d)"
  by (simp add: ret_def)

lemma raise_apply [simp]: "raise ex d = (Inl ex, d)"
  by (simp add: raise_def)

lemma bnd_driver:
  "bnd (driver e c g) f d =
     (case fault e c of
        Some m \<Rightarrow> (Inl (DatabaseError m), d)
      | None \<Rightarrow> f (fst (g d)) ((snd (g d))\<lparr>log := log (snd (g d)) @ [c]\<rparr>))"
  by (simp add: bnd_def driver_def split: option.splits prod.splits)

lemma bnd_connect:
  "bnd (get_db_connection e) f d =
     (if url_set e then
        (case fault e Connect of
           Some m \<Rightarrow> (Inl (DatabaseError m), d)
         | None \<Rightarrow> f () (d\<lparr>pending := [], log := log d @ [Connect]\<rparr>))
      else (Inl (ValueError (lit ''DATABASE_URL environment variable is required'')), d))"
  by (simp add: get_db_connection_def url_set_def bnd_driver split: option.splits)

lemmas db_steps = bnd_connect cursor_def execute_insert_def fetchone_def fetchall_def
  commit_def cursor_close_def conn_close_def subscript_id_def execute_select_all_def
  execute_select_by_id_def bnd_driver

lemma store_ok_create:
  "store_ok e create_calls \<longleftrightarrow>
     url_set e \<and> fault e Connect = None \<and> fault e Cursor = None
      \<and> fault e Execute = None \<and> fault e Fetch = None \<and> fault e Commit = None
      \<and> fault e CloseCursor = None \<and> fault e CloseConn = None"
  by (simp add: store_ok_def create_calls_def)

lemma store_ok_read:
  "store_ok e read_calls \<longleftrightarrow>
     url_set e \<and> fault e Connect = None \<and> fault e Cursor = None
      \<and> fault e Execute = None \<and> fault e Fetch = None
      \<and> fault e CloseCursor = None \<and> fault e CloseConn = None"
  by (simp add: store_ok_def read_calls_def)

lemma error_response_eq [simp]:
  "error_response c x = error_response c' y \<longleftrightarrow> c = c' \<and> x = y"
  by (simp add: error_response_def)

section \<open>The outcomes of a create request\<close>

lemma create_ok:
  assumes "get_data rq = Inr data"
    and "extract_fields data = Inr (n, em, ph, co, ws, ti, ad, an)"
    and "any_py [n, em, ph, co]"
    and "store_ok e create_calls"
  shows "process_business_card e rq d =
    (\<lparr>status = 200,
      body = PDict [(lit ''message'', PStr (lit ''Business card saved successfully'')),
                    (lit ''id'', PInt (next_id d)),
                    (lit ''data'',
                     PDict [(lit ''name'', PStr n),
                            (lit ''email'', PStr em),
                            (lit ''phone'', PStr ph),
                            (lit ''company'', PStr co),
                            (lit ''website'', PStr ws),
                            (lit ''title'', PStr ti),
                            (lit ''address'', PStr ad),
                            (lit ''notes'', PStr an)])]\<rparr>,
     d\<lparr>table := table d @
          [\<lparr>id_col = next_id d, full_name = Some n, email = Some em, phone = Some ph,
            company_name = Some co, website = Some ws,
            notes = Some (combine_notes ti ad an), dt = now e\<rparr>],
       next_id := next_id d + 1, pending := [],
       log := log d @ create_calls\<rparr>)"
  using assms
  by (simp add: process_business_card_def process_business_card_try_def store_ok_create
      db_steps Let_def)
    (simp add: create_calls_def)

lemma create_store_down:
  assumes "get_data rq = Inr data"
    and "extract_fields data = Inr (n, em, ph, co, ws, ti, ad, an)"
    and "any_py [n, em, ph, co]"
    and "\<not> store_ok e create_calls"
  shows "\<exists>m d'. process_business_card e rq d = (error_response 500 (lit ''Save failed: '' @ m), d')
           \<and> next_id d \<le> next_id d'
           \<and> (table d' = table d \<or>
                (\<exists>r. table d' = table d @ [r] \<and> id_col r = next_id d \<and> dt r = now e
                     \<and> next_id d' = next_id d + 1))"
proof -
  from assms(4) have *: "url_set e \<Longrightarrow> fault e Connect = None \<Longrightarrow> fault e Cursor = None
    \<Longrightarrow> fault e Execute = None \<Longrightarrow> fault e Fetch = None \<Longrightarrow> fault e Commit = None
    \<Longrightarrow> fault e CloseCursor = None \<Longrightarrow> fault e CloseConn = None \<Longrightarrow> False"
    by (simp add: store_ok_create)
  show ?thesis
    using assms(1-3)
    by (simp add: process_business_card_def process_business_card_try_def
        db_steps Let_def split: option.split) (use * in blast)
qed

lemma create_invalid:
  assumes "get_data rq = Inr data"
    and "extract_fields data = Inr (n, em, ph, co, ws, ti, ad, an)"
    and "\<not> any_py [n, em, ph, co]"
  shows "process_business_card e rq d = (validation_error, d)"
  using assms
  by (simp add: process_business_card_def process_business_card_try_def)

lemma create_undecodable:
  assumes "get_data rq = Inl ex"
  shows "process_business_card e rq d = (error_response 500 (lit ''Save failed: '' @ str_exn ex), d)"
  using assms
  by (simp add: process_business_card_def process_business_card_try_def)

lemma create_bad_field:
  assumes "get_data rq = Inr data" and "extract_fields data = Inl ex"
  shows "process_business_card e rq d = (error_response 500 (lit ''Save failed: '' @ str_exn ex), d)"
  using assms
  by (simp add: process_business_card_def process_business_card_try_def)

section \<open>The outcomes of the two reads\<close>

lemma get_card_ok:
  assumes "store_ok e read_calls"
  shows "get_card e card_id d =
    ((case filter (\<lambda>r. id_col r = card_id) (table d) of
        [] \<Rightarrow> error_response 404 (lit ''Card not found'')
      | r # _ \<Rightarrow> \<lparr>status = 200, body = PDict [(lit ''card'', dict_of_row r)]\<rparr>),
     d\<lparr>pending := [], log := log d @ read_calls\<rparr>)"
  using assms
  by (simp add: get_card_def get_card_try_def store_ok_read db_steps split: list.splits)
    (simp add: read_calls_def)

lemma get_card_store_down:
  assumes "\<not> store_ok e read_calls"
  shows "\<exists>m d'. get_card e card_id d = (error_response 500 (lit ''Failed to fetch card: '' @ m), d')
           \<and> table d' = table d \<and> next_id d' = next_id d"
  using assms
  by (auto simp: get_card_def get_card_try_def store_ok_read db_steps
      split: option.splits list.splits)

lemma get_cards_ok:
  assumes "store_ok e read_calls"
  shows "get_cards e d =
    (\<lparr>status = 200,
      body = PDict [(lit ''cards'', PList (map dict_of_row (order_by_dt_desc (table d)))),
                    (lit ''count'', PInt (int (length (order_by_dt_desc (table d)))))]\<rparr>,
     d\<lparr>pending := [], log := log d @ read_calls\<rparr>)"
  using assms
  by (simp add: get_cards_def get_cards_try_def store_ok_read db_steps)
    (simp add: read_calls_def)

lemma get_cards_store_down:
  assumes "\<not> store_ok e read_calls"
  shows "\<exists>m d'. get_cards e d = (error_response 500 (lit ''Failed to fetch cards: '' @ m), d')
           \<and> table d' = table d \<and> next_id d' = next_id d"
  using assms
  by (auto simp: get_cards_def get_cards_try_def store_ok_read db_steps
      split: option.splits)

lemma get_card_table: "table (snd (get_card e card_id d)) = table d"
  and get_card_next_id: "next_id (snd (get_card e card_id d)) = next_id d"
  using get_card_ok [of e card_id d] get_card_store_down [of e card_id d]
  by (cases "store_ok e read_calls"; auto)+

lemma get_cards_table: "table (snd (get_cards e d)) = table d"
  and get_cards_next_id: "next_id (snd (get_cards e d)) = next_id d"
  using get_cards_ok [of e d] get_cards_store_down [of e d]
  by (cases "store_ok e read_calls"; auto)+

section \<open>Every create request ends in one of five ways\<close>

lemma create_cases:
  obtains
    (undecodable) ex where "get_data rq = Inl ex"
  | (bad_field) data ex where "get_data rq = Inr data" "extract_fields data = Inl ex"
  | (invalid) data n em ph co ws ti ad an where "get_data rq = Inr data"
      "extract_fields data = Inr (n, em, ph, co, ws, ti, ad, an)" "\<not> any_py [n, em, ph, co]"
  | (store_down) data n em ph co ws ti ad an where "get_data rq = Inr data"
      "extract_fields data = Inr (n, em, ph, co, ws, ti, ad, an)" "any_py [n, em, ph, co]"
      "\<not> store_ok e create_calls"
  | (saved) data n em ph co ws ti ad an where "get_data rq = Inr data"
      "extract_fields data = Inr (n, em, ph, co, ws, ti, ad, an)" "any_py [n, em, ph, co]"
      "store_ok e create_calls"
proof (cases "get_data rq")
  case (Inl ex)
  then show ?thesis by (rule undecodable)
next
  case (Inr data)
  show ?thesis
  proof (cases "extract_fields data")
    case (Inl ex)
    with Inr show ?thesis by (rule bad_field)
  next
    case r: (Inr t)
    obtain n em ph co ws ti ad an where t: "t = (n, em, ph, co, ws, ti, ad, an)"
      by (cases t) auto
    show ?thesis
    proof (cases "any_py [n, em, ph, co]")
      case False
      with Inr r t show ?thesis by (auto intro: invalid)
    next
      case True
      with Inr r t show ?thesis
        by (cases "store_ok e create_calls") (auto intro: store_down saved)
    qed
  qed
qed

lemma create_table:
  "table (snd (process_business_card e rq d)) = table d \<or>
   (\<exists>r. table (snd (process_business_card e rq d)) = table d @ [r] \<and> id_col r = next_id d
        \<and> dt r = now e \<and> next_id (snd (process_business_card e rq d)) = next_id d + 1)"
proof (cases rule: create_cases [where rq = rq and e = e])
  case undecodable
  then show ?thesis by (simp add: create_undecodable)
next
  case bad_field
  then show ?thesis by (simp add: create_bad_field)
next
  case invalid
  then show ?thesis by (simp add: create_invalid)
next
  case store_down
  from create_store_down [OF this, of d] show ?thesis by auto
next
  case saved
  then show ?thesis by (simp add: create_ok)
qed

lemma create_next_id: "next_id d \<le> next_id (snd (process_business_card e rq d))"
proof (cases rule: create_cases [where rq = rq and e = e])
  case undecodable
  then show ?thesis by (simp add: create_undecodable)
next
  case bad_field
  then show ?thesis by (simp add: create_bad_field)
next
  case invalid
  then show ?thesis by (simp add: create_invalid)
next
  case store_down
  from create_store_down [OF this, of d] show ?thesis by auto
next
  case saved
  then show ?thesis by (simp add: create_ok)
qed

lemma create_status_200:
  assumes "status (fst (process_business_card e rq d)) = 200"
  obtains data n em ph co ws ti ad an where "get_data rq = Inr data"
      "extract_fields data = Inr (n, em, ph, co, ws, ti, ad, an)" "any_py [n, em, ph, co]"
      "store_ok e create_calls"
proof (cases rule: create_cases [where rq = rq and e = e])
  case undecodable
  then show ?thesis using assms by (simp add: create_undecodable error_response_def)
next
  case bad_field
  then show ?thesis using assms by (simp add: create_bad_field error_response_def)
next
  case invalid
  then show ?thesis using assms by (simp add: create_invalid validation_error_def)
next
  case store_down
  from create_store_down [OF this, of d] show ?thesis using assms
    by (auto simp: error_response_def)
next
  case saved
  then show ?thesis using that by blast
qed

section \<open>Extracting the fields\<close>

lemma field_dict:
  "field (PDict items) k =
     (case map_of items (lit k) of None \<Rightarrow> Inr [] | Some v \<Rightarrow> py_strip v)"
  by (simp add: field_def and_then_def strip_def split: option.splits)

lemma py_strip_not_str: "\<forall>s. v \<noteq> PStr s \<Longrightarrow> py_strip v = Inl (no_attribute v ''strip'')"
  by (cases v) auto

lemma extract_fields_Inr:
  "extract_fields data = Inr (n, em, ph, co, ws, ti, ad, an) \<longleftrightarrow>
     field data ''name'' = Inr n \<and> field data ''email'' = Inr em \<and> field data ''phone'' = Inr ph
     \<and> field data ''company'' = Inr co \<and> field data ''website'' = Inr ws
     \<and> field data ''title'' = Inr ti \<and> field data ''address'' = Inr ad
     \<and> field data ''notes'' = Inr an"
  by (auto simp: extract_fields_def and_then_def split: sum.splits)

lemma extract_fields_Inl:
  assumes "k \<in> set [''name'', ''email'', ''phone'', ''company'', ''website'', ''title'',
                     ''address'', ''notes'']"
    and "field data k = Inl ex"
  shows "\<exists>ex'. extract_fields data = Inl ex'"
  using assms by (auto simp: extract_fields_def and_then_def split: sum.splits)

section \<open>Trimming\<close>

lemma strip_sandwich:
  assumes "list_all isspace l" and "list_all isspace r"
    and "t = [] \<or> (\<not> isspace (hd t) \<and> \<not> isspace (last t))"
  shows "strip (l @ t @ r) = t"
proof (cases "t = []")
  case True
  with assms(1,2) have "\<forall>x\<in>set (l @ t @ r). isspace x"
    by (auto simp: list_all_iff)
  then have d: "dropWhile isspace (l @ t @ r) = []"
    by (simp only: dropWhile_eq_Nil_conv)
  show ?thesis unfolding strip_def d using True by simp
next
  case False
  with assms(3) have h: "\<not> isspace (hd t)" and la: "\<not> isspace (last t)" by auto
  from assms(1) have "dropWhile isspace (l @ t @ r) = dropWhile isspace (t @ r)"
    by (subst dropWhile_append2) (auto simp: list_all_iff)
  also from False h have "\<dots> = t @ r"
    by (cases t) simp_all
  finally have 1: "dropWhile isspace (l @ t @ r) = t @ r" .
  from assms(2) have "dropWhile isspace (rev r @ rev t) = dropWhile isspace (rev t)"
    by (subst dropWhile_append2) (auto simp: list_all_iff)
  then have "dropWhile isspace (rev (t @ r)) = dropWhile isspace (rev t)"
    by simp
  also from False la have "\<dots> = rev t"
    by (cases t rule: rev_cases) simp_all
  finally show ?thesis using 1 by (simp add: strip_def)
qed

lemma trimmed_from_decompose:
  "trimmed_from raw t \<longleftrightarrow>
     (\<exists>l r. raw = l @ t @ r \<and> list_all isspace l \<and> list_all isspace r)
     \<and> (t = [] \<or> (\<not> isspace (hd t) \<and> \<not> isspace (last t)))"
proof -
  have "(\<exists>i\<le>length raw. list_all isspace (take i raw) \<and> take (length t) (drop i raw) = t
            \<and> list_all isspace (drop (i + length t) raw))
        \<longleftrightarrow> (\<exists>l r. raw = l @ t @ r \<and> list_all isspace l \<and> list_all isspace r)"
    (is "?L \<longleftrightarrow> ?R")
  proof
    assume ?L
    then obtain i where i: "list_all isspace (take i raw)" "take (length t) (drop i raw) = t"
      "list_all isspace (drop (i + length t) raw)" by blast
    have "raw = take i raw @ drop i raw" by simp
    also have "drop i raw = take (length t) (drop i raw) @ drop (length t) (drop i raw)"
      by (rule append_take_drop_id [symmetric])
    also have "\<dots> = t @ drop (i + length t) raw" using i(2) by (simp add: add.commute)
    finally show ?R using i(1,3) by blast
  next
    assume ?R
    then obtain l r where "raw = l @ t @ r" "list_all isspace l" "list_all isspace r" by blast
    then have "length l \<le> length raw \<and> list_all isspace (take (length l) raw)
        \<and> take (length t) (drop (length l) raw) = t
        \<and> list_all isspace (drop (length l + length t) raw)"
      by simp
    then show ?L by blast
  qed
  moreover have "list_ex Q [0..<Suc (length raw)] \<longleftrightarrow> (\<exists>i\<le>length raw. Q i)" for Q
    by (auto simp: list_ex_iff less_Suc_eq_le simp del: upt_Suc)
  ultimately show ?thesis
    by (simp add: trimmed_from_def del: upt_Suc)
qed

lemma strip_decompose:
  "\<exists>l r. raw = l @ strip raw @ r \<and> list_all isspace l \<and> list_all isspace r"
proof -
  let ?l = "takeWhile isspace raw" and ?m = "dropWhile isspace raw"
  let ?r = "rev (takeWhile isspace (rev ?m))"
  have "rev (takeWhile isspace (rev ?m) @ dropWhile isspace (rev ?m)) = rev (rev ?m)"
    by (simp only: takeWhile_dropWhile_id)
  then have m: "?m = strip raw @ ?r"
    by (simp only: rev_append rev_rev_ident strip_def)
  have "raw = ?l @ ?m" by simp
  with m have "raw = ?l @ strip raw @ ?r" by simp
  moreover have "list_all isspace ?l"
    by (auto simp: list_all_iff dest: set_takeWhileD)
  moreover have "list_all isspace ?r"
    by (auto simp: list_all_iff dest: set_takeWhileD)
  ultimately show ?thesis by blast
qed

lemma strip_ends:
  assumes "strip raw \<noteq> []"
  shows "\<not> isspace (hd (strip raw))" and "\<not> isspace (last (strip raw))"
proof -
  let ?m = "dropWhile isspace raw"
  let ?k = "dropWhile isspace (rev ?m)"
  from assms have k: "?k \<noteq> []" by (simp add: strip_def)
  then have "\<not> isspace (hd ?k)" by (rule hd_dropWhile)
  moreover have "last (strip raw) = hd ?k"
    using k by (simp add: strip_def last_rev)
  ultimately show "\<not> isspace (last (strip raw))" by simp
  have m: "?m \<noteq> []"
  proof
    assume "?m = []"
    then have "dropWhile isspace (rev ?m) = dropWhile isspace (rev [])"
      by (rule arg_cong)
    also have "\<dots> = []" by simp
    finally show False using k by blast
  qed
  then have hm: "\<not> isspace (hd ?m)" by (rule hd_dropWhile)
  have "rev (takeWhile isspace (rev ?m) @ ?k) = rev (rev ?m)"
    by (simp only: takeWhile_dropWhile_id)
  then have "?m = strip raw @ rev (takeWhile isspace (rev ?m))"
    by (simp only: rev_append rev_rev_ident strip_def)
  with assms have "hd ?m = hd (strip raw)"
    by (metis hd_append2)
  with hm show "\<not> isspace (hd (strip raw))" by simp
qed

lemma trimmed_from_iff: "trimmed_from raw t \<longleftrightarrow> t = strip raw"
proof
  assume "trimmed_from raw t"
  then obtain l r where "raw = l @ t @ r" "list_all isspace l" "list_all isspace r"
    and "t = [] \<or> (\<not> isspace (hd t) \<and> \<not> isspace (last t))"
    by (auto simp: trimmed_from_decompose)
  then show "t = strip raw" by (simp add: strip_sandwich)
next
  assume "t = strip raw"
  then show "trimmed_from raw t"
    using strip_decompose [of raw] strip_ends [of raw]
    by (auto simp: trimmed_from_decompose)
qed

lemma strip_Nil [simp]: "strip [] = []"
  by (simp add: strip_def)

lemma field_trimmed: "field (PDict items) key = Inr t \<longleftrightarrow> field_trimmed_to items key t"
proof (cases "map_of items (lit key)")
  case None
  then show ?thesis
    by (auto simp: field_dict field_trimmed_to_def raw_field_def trimmed_from_iff)
next
  case (Some v)
  then show ?thesis
    by (cases v)
      (auto simp: field_dict field_trimmed_to_def raw_field_def trimmed_from_iff no_attribute_def)
qed

lemma field_Inr_dict: "field data key = Inr t \<Longrightarrow> \<exists>items. data = PDict items"
  by (cases data) (simp_all add: field_def and_then_def)

lemma extract_fields_trimmed:
  "extract_fields (PDict items) = Inr (n, em, ph, co, ws, ti, ad, an) \<longleftrightarrow>
     field_trimmed_to items ''name'' n \<and> field_trimmed_to items ''email'' em
     \<and> field_trimmed_to items ''phone'' ph \<and> field_trimmed_to items ''company'' co
     \<and> field_trimmed_to items ''website'' ws \<and> field_trimmed_to items ''title'' ti
     \<and> field_trimmed_to items ''address'' ad \<and> field_trimmed_to items ''notes'' an"
  by (simp add: extract_fields_Inr field_trimmed)

lemma extract_fields_Inr_dict:
  "extract_fields data = Inr x \<Longrightarrow> \<exists>items. data = PDict items"
  by (cases x) (auto simp: extract_fields_Inr dest: field_Inr_dict)

section \<open>Validation\<close>

text \<open>
  C1. A create request whose eight fields are strings (or absent) and whose name, email,
  phone and company are all empty after trimming is answered with status 400 and the
  body \<open>{error: "At least one of name, email, phone, or company is required"}\<close>,
  whatever the state of the store and its driver; the store is left exactly as it was,
  so no row is added.
\<close>

theorem empty_card_rejected:
  assumes "get_data rq = Inr data"
    and "extract_fields data = Inr (n, em, ph, co, ws, ti, ad, an)"
    and "n = [] \<and> em = [] \<and> ph = [] \<and> co = []"
  shows "process_business_card e rq d =
    (\<lparr>status = 400,
      body = PDict [(lit ''error'',
                     PStr (lit ''At least one of name, email, phone, or company is required''))]\<rparr>,
     d)"
proof -
  from assms(3) have "\<not> any_py [n, em, ph, co]"
    by (simp add: any_py_def)
  with assms(1,2) have "process_business_card e rq d = (validation_error, d)"
    by (rule create_invalid)
  then show ?thesis by (simp add: validation_error_def)
qed

theorem empty_card_rejected_witness:
  "process_business_card
     \<lparr>database_url = None, fault = (\<lambda>_. None), now = 0\<rparr>
     (JsonRequest (Inr (PDict [(lit ''name'', PStr (lit ''  '')),
                               (lit ''website'', PStr (lit ''techcorp.com''))])))
     \<lparr>table = [], next_id = 1, pending = [], log = []\<rparr> =
   (\<lparr>status = 400,
     body = PDict [(lit ''error'',
                    PStr (lit ''At least one of name, email, phone, or company is required''))]\<rparr>,
    \<lparr>table = [], next_id = 1, pending = [], log = []\<rparr>)"
proof -
  let ?data = "PDict [(lit ''name'', PStr (lit ''  '')),
                      (lit ''website'', PStr (lit ''techcorp.com''))]"
  have 1: "get_data (JsonRequest (Inr ?data)) = Inr ?data" by simp
  have 2: "extract_fields ?data = Inr ([], [], [], [], lit ''techcorp.com'', [], [], [])"
    by (simp add: extract_fields_Inr field_dict strip_def lit_def isspace_def)
  show ?thesis
    by (rule empty_card_rejected [OF 1 2]) simp
qed

section \<open>Ill-typed fields\<close>

lemma field_not_str:
  assumes "map_of items (lit k) = Some v" and "\<forall>s. v \<noteq> PStr s"
  shows "field (PDict items) k = Inl (no_attribute v ''strip'')"
  using assms by (simp add: field_dict py_strip_not_str)

text \<open>
  C9. When the decoded body is a dict that binds one of the eight fields to a value
  that is not a string, the create handler answers with status 500 and a message that
  begins with "Save failed: " (not with the 400 validation error), whatever the store
  and the other fields are, and the store is left exactly as it was.
\<close>

theorem non_string_field_save_failed:
  assumes "get_data rq = Inr (PDict items)"
    and "k \<in> set [''name'', ''email'', ''phone'', ''company'', ''website'', ''title'',
                     ''address'', ''notes'']"
    and "map_of items (lit k) = Some v"
    and "\<forall>s. v \<noteq> PStr s"
  shows "\<exists>m. process_business_card e rq d =
           (\<lparr>status = 500, body = PDict [(lit ''error'', PStr (lit ''Save failed: '' @ m))]\<rparr>, d)"
proof -
  from assms(3,4) have "field (PDict items) k = Inl (no_attribute v ''strip'')"
    by (rule field_not_str)
  with assms(2) obtain ex where "extract_fields (PDict items) = Inl ex"
    using extract_fields_Inl by blast
  with assms(1) have "process_business_card e rq d =
      (error_response 500 (lit ''Save failed: '' @ str_exn ex), d)"
    by (rule create_bad_field)
  then show ?thesis by (auto simp: error_response_def)
qed

theorem non_string_field_save_failed_witness:
  "process_business_card
     \<lparr>database_url = Some (lit ''postgres://db''), fault = (\<lambda>_. None), now = 0\<rparr>
     (JsonRequest (Inr (PDict [(lit ''name'', PStr (lit ''John Doe'')),
                               (lit ''phone'', PInt 5551234567)])))
     \<lparr>table = [], next_id = 1, pending = [], log = []\<rparr> =
   (\<lparr>status = 500,
     body = PDict [(lit ''error'',
                    PStr (lit ''Save failed: '' @ lit [CHR 0x27] @ lit ''int'' @ lit [CHR 0x27]
                          @ lit '' object has no attribute '' @ lit [CHR 0x27]
                          @ lit ''strip'' @ lit [CHR 0x27]))]\<rparr>,
    \<lparr>table = [], next_id = 1, pending = [], log = []\<rparr>)"
proof -
  let ?items = "[(lit ''name'', PStr (lit ''John Doe'')), (lit ''phone'', PInt 5551234567)]"
  let ?rq = "JsonRequest (Inr (PDict ?items))"
  let ?e = "\<lparr>database_url = Some (lit ''postgres://db''), fault = (\<lambda>_. None), now = 0\<rparr>"
  let ?d = "\<lparr>table = [], next_id = 1, pending = [], log = []\<rparr>"
  have 1: "get_data ?rq = Inr (PDict ?items)" by simp
  have 2: "''phone'' \<in> set [''name'', ''email'', ''phone'', ''company'', ''website'', ''title'',
                     ''address'', ''notes'']" by simp
  have 3: "map_of ?items (lit ''phone'') = Some (PInt 5551234567)" by simp
  have 4: "\<forall>s. PInt 5551234567 \<noteq> PStr s" by simp
  from non_string_field_save_failed [OF 1 2 3 4, of ?e ?d]
  obtain m where m: "process_business_card ?e ?rq ?d =
      (\<lparr>status = 500, body = PDict [(lit ''error'', PStr (lit ''Save failed: '' @ m))]\<rparr>, ?d)"
    by blast
  have "process_business_card ?e ?rq ?d =
      (error_response 500 (lit ''Save failed: '' @ str_exn (no_attribute (PInt 5551234567) ''strip'')), ?d)"
    by (rule create_bad_field [OF 1])
       (simp add: extract_fields_def and_then_def field_dict strip_def no_attribute_def)
  with m show ?thesis by (simp add: error_response_def no_attribute_def)
qed

section \<open>What a create stores and answers\<close>

lemma store_ok_env_ok [simp]: "store_ok (env_ok t) create_calls" "store_ok (env_ok t) read_calls"
  by (simp_all add: env_ok_def store_ok_def url_set_def create_calls_def read_calls_def)

lemma now_env_ok [simp]: "now (env_ok t) = t"
  by (simp add: env_ok_def)

lemma john_doe_fields:
  "extract_fields (PDict
       [(lit ''name'', PStr (lit ''John Doe'')),
        (lit ''email'', PStr (lit ''john@techcorp.com'')),
        (lit ''phone'', PStr (lit ''5551234567'')),
        (lit ''company'', PStr (lit ''Tech Corp'')),
        (lit ''title'', PStr (lit ''Software Engineer'')),
        (lit ''website'', PStr (lit ''techcorp.com'')),
        (lit ''address'', PStr (lit ''123 Main St, City, State'')),
        (lit ''notes'', PStr (lit ''Met at tech conference 2024''))]) =
   Inr (lit ''John Doe'', lit ''john@techcorp.com'', lit ''5551234567'', lit ''Tech Corp'',
        lit ''techcorp.com'', lit ''Software Engineer'', lit ''123 Main St, City, State'',
        lit ''Met at tech conference 2024'')"
  by (simp add: extract_fields_Inr field_dict strip_def lit_def isspace_def)

lemma john_doe_created:
  "process_business_card (env_ok t) john_doe d =
    (\<lparr>status = 200,
      body = PDict [(lit ''message'', PStr (lit ''Business card saved successfully'')),
                    (lit ''id'', PInt (next_id d)),
                    (lit ''data'',
                     PDict [(lit ''name'', PStr (lit ''John Doe'')),
                            (lit ''email'', PStr (lit ''john@techcorp.com'')),
                            (lit ''phone'', PStr (lit ''5551234567'')),
                            (lit ''company'', PStr (lit ''Tech Corp'')),
                            (lit ''website'', PStr (lit ''techcorp.com'')),
                            (lit ''title'', PStr (lit ''Software Engineer'')),
                            (lit ''address'', PStr (lit ''123 Main St, City, State'')),
                            (lit ''notes'', PStr (lit ''Met at tech conference 2024''))])]\<rparr>,
     d\<lparr>table := table d @
          [\<lparr>id_col = next_id d, full_name = Some (lit ''John Doe''),
            email = Some (lit ''john@techcorp.com''), phone = Some (lit ''5551234567''),
            company_name = Some (lit ''Tech Corp''), website = Some (lit ''techcorp.com''),
            notes = Some (combine_notes (lit ''Software Engineer'')
                            (lit ''123 Main St, City, State'')
                            (lit ''Met at tech conference 2024'')),
            dt = t\<rparr>],
       next_id := next_id d + 1, pending := [],
       log := log d @ create_calls\<rparr>)"
proof -
  have 1: "get_data john_doe = Inr (PDict
       [(lit ''name'', PStr (lit ''John Doe'')),
        (lit ''email'', PStr (lit ''john@techcorp.com'')),
        (lit ''phone'', PStr (lit ''5551234567'')),
        (lit ''company'', PStr (lit ''Tech Corp'')),
        (lit ''title'', PStr (lit ''Software Engineer'')),
        (lit ''website'', PStr (lit ''techcorp.com'')),
        (lit ''address'', PStr (lit ''123 Main St, City, State'')),
        (lit ''notes'', PStr (lit ''Met at tech conference 2024''))])"
    by (simp add: john_doe_def)
  have 3: "any_py [lit ''John Doe'', lit ''john@techcorp.com'', lit ''5551234567'',
                   lit ''Tech Corp'']"
    by (simp add: any_py_def)
  show ?thesis
    using create_ok [OF 1 john_doe_fields 3 store_ok_env_ok(1), of t d] by simp
qed

lemma combine_notes_spec: "combine_notes ti ad an = spec_notes ti ad an"
  by (simp add: combine_notes_def spec_notes_def Let_def)

lemma combine_notes_empty [simp]: "combine_notes [] [] [] = []"
  by (simp add: combine_notes_def)

lemma length_lit [simp]: "length (lit cs) = length cs"
  by (simp add: lit_def)

lemma combine_notes_longer:
  assumes "ti \<noteq> [] \<or> ad \<noteq> [] \<or> an \<noteq> []"
  shows "length an < length (combine_notes ti ad an)"
  using assms by (auto simp: combine_notes_def Let_def)

text \<open>
  C10. When a create request passes validation, the store answers, and title, address
  and notes are all empty after trimming, the row written has the empty string in its
  notes column; all six text columns hold a string, none is NULL.
\<close>

theorem empty_details_store_empty_notes:
  assumes "get_data rq = Inr data"
    and "extract_fields data = Inr (n, em, ph, co, ws, [], [], [])"
    and "any_py [n, em, ph, co]"
    and "store_ok e create_calls"
  shows "table (snd (process_business_card e rq d)) =
           table d @
           [\<lparr>id_col = next_id d, full_name = Some n, email = Some em, phone = Some ph,
             company_name = Some co, website = Some ws, notes = Some [], dt = now e\<rparr>]"
  using create_ok [OF assms, of d] by simp

theorem empty_details_store_empty_notes_witness:
  "table (snd (process_business_card (env_ok 7)
     (FormRequest [(lit ''name'', lit ''John Doe''), (lit ''title'', lit '' '')]) empty_db)) =
   table empty_db @
   [\<lparr>id_col = next_id empty_db, full_name = Some (lit ''John Doe''), email = Some [],
     phone = Some [], company_name = Some [], website = Some [], notes = Some [], dt = 7\<rparr>]"
proof -
  let ?rq = "FormRequest [(lit ''name'', lit ''John Doe''), (lit ''title'', lit '' '')]"
  let ?data = "PDict [(lit ''name'', PStr (lit ''John Doe'')), (lit ''title'', PStr (lit '' ''))]"
  have 1: "get_data ?rq = Inr ?data" by simp
  have 2: "extract_fields ?data = Inr (lit ''John Doe'', [], [], [], [], [], [], [])"
    by (simp add: extract_fields_Inr field_dict strip_def lit_def isspace_def)
  have 3: "any_py [lit ''John Doe'', [], [], []]" by (simp add: any_py_def)
  show ?thesis
    using empty_details_store_empty_notes [OF 1 2 3 store_ok_env_ok(1), of 7 empty_db]
    by simp
qed

text \<open>
  C4. Every create request answered with status 200 has a body made of the message, the
  id the store assigned, and \<open>data\<close> with exactly the eight keys name, email, phone,
  company, website, title, address, notes, each bound to the trimmed form of the string
  the request binds to that field (the empty string when the field is absent).
  \<open>data.notes\<close> is the trimmed notes sub-field, while the notes column of the new row
  holds the combined text; the two differ as soon as one of title, address, notes is not
  empty.
\<close>

theorem created_response_echoes_input:
  assumes "process_business_card e rq d = (resp, d')" and "status resp = 200"
  shows "\<exists>items n em ph co ws ti ad an.
           get_data rq = Inr (PDict items)
         \<and> field_trimmed_to items ''name'' n \<and> field_trimmed_to items ''email'' em
         \<and> field_trimmed_to items ''phone'' ph \<and> field_trimmed_to items ''company'' co
         \<and> field_trimmed_to items ''website'' ws \<and> field_trimmed_to items ''title'' ti
         \<and> field_trimmed_to items ''address'' ad \<and> field_trimmed_to items ''notes'' an
         \<and> body resp =
             PDict [(lit ''message'', PStr (lit ''Business card saved successfully'')),
                    (lit ''id'', PInt (next_id d)),
                    (lit ''data'',
                     PDict [(lit ''name'', PStr n),
                            (lit ''email'', PStr em),
                            (lit ''phone'', PStr ph),
                            (lit ''company'', PStr co),
                            (lit ''website'', PStr ws),
                            (lit ''title'', PStr ti),
                            (lit ''address'', PStr ad),
                            (lit ''notes'', PStr an)])]
         \<and> map notes (table d') = map notes (table d) @ [Some (spec_notes ti ad an)]
         \<and> (ti \<noteq> [] \<or> ad \<noteq> [] \<or> an \<noteq> [] \<longrightarrow> spec_notes ti ad an \<noteq> an)"
proof -
  from assms have "status (fst (process_business_card e rq d)) = 200" by simp
  then obtain data n em ph co ws ti ad an where
    ok: "get_data rq = Inr data" "extract_fields data = Inr (n, em, ph, co, ws, ti, ad, an)"
      "any_py [n, em, ph, co]" "store_ok e create_calls"
    by (rule create_status_200)
  from ok(2) obtain items where items: "data = PDict items"
    by (auto dest: extract_fields_Inr_dict)
  have neq: "spec_notes ti ad an \<noteq> an" if "ti \<noteq> [] \<or> ad \<noteq> [] \<or> an \<noteq> []"
    using combine_notes_longer [OF that] by (auto simp: combine_notes_spec)
  from ok(2) items have t: "field_trimmed_to items ''name'' n \<and> field_trimmed_to items ''email'' em
         \<and> field_trimmed_to items ''phone'' ph \<and> field_trimmed_to items ''company'' co
         \<and> field_trimmed_to items ''website'' ws \<and> field_trimmed_to items ''title'' ti
         \<and> field_trimmed_to items ''address'' ad \<and> field_trimmed_to items ''notes'' an"
    by (simp add: extract_fields_trimmed)
  from create_ok [OF ok, of d] assms(1)
  have "body resp =
             PDict [(lit ''message'', PStr (lit ''Business card saved successfully'')),
                    (lit ''id'', PInt (next_id d)),
                    (lit ''data'',
                     PDict [(lit ''name'', PStr n),
                            (lit ''email'', PStr em),
                            (lit ''phone'', PStr ph),
                            (lit ''company'', PStr co),
                            (lit ''website'', PStr ws),
                            (lit ''title'', PStr ti),
                            (lit ''address'', PStr ad),
                            (lit ''notes'', PStr an)])]"
    and "map notes (table d') = map notes (table d) @ [Some (spec_notes ti ad an)]"
    by (auto simp: combine_notes_spec)
  with ok(1) items t neq show ?thesis by blast
qed

lemma jane_roe_data: "get_data jane_roe = Inr (PDict jane_roe_items)"
  by (simp add: jane_roe_def jane_roe_items_def)

lemma jane_roe_trimmed:
  "field_trimmed_to jane_roe_items ''name'' (lit ''Jane Roe'')"
  "field_trimmed_to jane_roe_items ''email'' (lit ''jane@example.org'')"
  "field_trimmed_to jane_roe_items ''phone'' []"
  "field_trimmed_to jane_roe_items ''company'' []"
  "field_trimmed_to jane_roe_items ''website'' []"
  "field_trimmed_to jane_roe_items ''title'' (lit ''CTO'')"
  "field_trimmed_to jane_roe_items ''address'' []"
  "field_trimmed_to jane_roe_items ''notes'' (lit ''call back'')"
  unfolding field_trimmed [symmetric]
  by (simp_all add: jane_roe_items_def field_dict strip_def lit_def isspace_def)

lemma spec_notes_jane_roe:
  "spec_notes (lit ''CTO'') [] (lit ''call back'') =
     lit ''Title: CTO'' @ lit [CHR 0x0A] @ lit ''Notes: call back''"
  by (simp add: spec_notes_def lit_def)

lemma jane_roe_created:
  "process_business_card (env_ok t) jane_roe d =
    (\<lparr>status = 200,
      body = PDict [(lit ''message'', PStr (lit ''Business card saved successfully'')),
                    (lit ''id'', PInt (next_id d)),
                    (lit ''data'',
                     PDict [(lit ''name'', PStr (lit ''Jane Roe'')),
                            (lit ''email'', PStr (lit ''jane@example.org'')),
                            (lit ''phone'', PStr []),
                            (lit ''company'', PStr []),
                            (lit ''website'', PStr []),
                            (lit ''title'', PStr (lit ''CTO'')),
                            (lit ''address'', PStr []),
                            (lit ''notes'', PStr (lit ''call back''))])]\<rparr>,
     d\<lparr>table := table d @
          [\<lparr>id_col = next_id d, full_name = Some (lit ''Jane Roe''),
            email = Some (lit ''jane@example.org''), phone = Some [],
            company_name = Some [], website = Some [],
            notes = Some (combine_notes (lit ''CTO'') [] (lit ''call back'')),
            dt = t\<rparr>],
       next_id := next_id d + 1, pending := [],
       log := log d @ create_calls\<rparr>)"
proof -
  have x: "extract_fields (PDict jane_roe_items) =
      Inr (lit ''Jane Roe'', lit ''jane@example.org'', [], [], [], lit ''CTO'', [],
           lit ''call back'')"
    by (simp add: extract_fields_trimmed jane_roe_trimmed)
  have a: "any_py [lit ''Jane Roe'', lit ''jane@example.org'', [], []]"
    by (simp add: any_py_def)
  show ?thesis
    using create_ok [OF jane_roe_data x a store_ok_env_ok(1), of t d] by simp
qed

lemma field_trimmed_to_unique:
  "field_trimmed_to items key t \<Longrightarrow> field_trimmed_to items key t' \<Longrightarrow> t = t'"
  by (auto simp: field_trimmed_to_def trimmed_from_iff split: option.splits)

theorem created_response_echoes_input_witness:
  "body (fst (process_business_card (env_ok 1700000000) jane_roe empty_db)) =
     PDict [(lit ''message'', PStr (lit ''Business card saved successfully'')),
            (lit ''id'', PInt 1),
            (lit ''data'',
             PDict [(lit ''name'', PStr (lit ''Jane Roe'')),
                    (lit ''email'', PStr (lit ''jane@example.org'')),
                    (lit ''phone'', PStr []),
                    (lit ''company'', PStr []),
                    (lit ''website'', PStr []),
                    (lit ''title'', PStr (lit ''CTO'')),
                    (lit ''address'', PStr []),
                    (lit ''notes'', PStr (lit ''call back''))])]
   \<and> map notes (table (snd (process_business_card (env_ok 1700000000) jane_roe empty_db))) =
       [Some (lit ''Title: CTO'' @ lit [CHR 0x0A] @ lit ''Notes: call back'')]
   \<and> lit ''Title: CTO'' @ lit [CHR 0x0A] @ lit ''Notes: call back'' \<noteq> lit ''call back''"
proof -
  let ?p = "process_business_card (env_ok 1700000000) jane_roe empty_db"
  have "status (fst ?p) = 200"
    by (simp add: jane_roe_created)
  from created_response_echoes_input [OF surjective_pairing this]
  obtain items n em ph co ws ti ad an where
    d: "get_data jane_roe = Inr (PDict items)"
    and f: "field_trimmed_to items ''name'' n" "field_trimmed_to items ''email'' em"
      "field_trimmed_to items ''phone'' ph" "field_trimmed_to items ''company'' co"
      "field_trimmed_to items ''website'' ws" "field_trimmed_to items ''title'' ti"
      "field_trimmed_to items ''address'' ad" "field_trimmed_to items ''notes'' an"
    and b: "body (fst ?p) =
             PDict [(lit ''message'', PStr (lit ''Business card saved successfully'')),
                    (lit ''id'', PInt (next_id empty_db)),
                    (lit ''data'',
                     PDict [(lit ''name'', PStr n),
                            (lit ''email'', PStr em),
                            (lit ''phone'', PStr ph),
                            (lit ''company'', PStr co),
                            (lit ''website'', PStr ws),
                            (lit ''title'', PStr ti),
                            (lit ''address'', PStr ad),
                            (lit ''notes'', PStr an)])]"
    and t: "map notes (table (snd ?p)) = map notes (table empty_db) @ [Some (spec_notes ti ad an)]"
    and ne: "ti \<noteq> [] \<or> ad \<noteq> [] \<or> an \<noteq> [] \<longrightarrow> spec_notes ti ad an \<noteq> an"
    by blast
  from d have "items = jane_roe_items" by (simp add: jane_roe_data)
  moreover have "field (PDict jane_roe_items) ''name'' = Inr (lit ''Jane Roe'')"
    "field (PDict jane_roe_items) ''email'' = Inr (lit ''jane@example.org'')"
    "field (PDict jane_roe_items) ''phone'' = Inr []"
    "field (PDict jane_roe_items) ''company'' = Inr []"
    "field (PDict jane_roe_items) ''website'' = Inr []"
    "field (PDict jane_roe_items) ''title'' = Inr (lit ''CTO'')"
    "field (PDict jane_roe_items) ''address'' = Inr []"
    "field (PDict jane_roe_items) ''notes'' = Inr (lit ''call back'')"
    by (simp_all add: jane_roe_items_def field_dict strip_def lit_def isspace_def)
  ultimately have "n = lit ''Jane Roe''" "em = lit ''jane@example.org''" "ph = []" "co = []"
    "ws = []" "ti = lit ''CTO''" "ad = []" "an = lit ''call back''"
    using f by (auto simp: field_trimmed intro: field_trimmed_to_unique)
  with b t ne show ?thesis
    by (simp add: spec_notes_jane_roe empty_db_def)
qed

lemma response_id_created:
  "response_id \<lparr>status = s,
      body = PDict [(lit ''message'', m), (lit ''id'', PInt i), (lit ''data'', x)]\<rparr> = Some i"
  by (simp add: response_id_def)

lemma store_wf_empty_db [simp]: "store_wf empty_db"
  by (simp add: store_wf_def empty_db_def)

section \<open>Runs of requests\<close>

lemma dispatch_next_id: "next_id d \<le> next_id (snd (dispatch c d))"
  by (cases c) (simp_all add: create_next_id get_card_next_id get_cards_next_id)

lemma serve_next_id: "next_id d \<le> next_id (serve cs d)"
proof (induction cs arbitrary: d)
  case Nil
  show ?case by simp
next
  case (Cons c cs)
  have "next_id d \<le> next_id (snd (dispatch c d))" by (rule dispatch_next_id)
  also have "\<dots> \<le> next_id (serve cs (snd (dispatch c d)))" by (rule Cons.IH)
  finally show ?case by simp
qed

lemma dispatch_table: "set (table d) \<subseteq> set (table (snd (dispatch c d)))"
proof (cases c)
  case (ProcessCard e rq)
  then show ?thesis using create_table [of e rq d] by auto
next
  case (GetCards e)
  then show ?thesis by (simp add: get_cards_table)
next
  case (GetCard e i)
  then show ?thesis by (simp add: get_card_table)
qed

lemma serve_table: "set (table d) \<subseteq> set (table (serve cs d))"
proof (induction cs arbitrary: d)
  case Nil
  show ?case by simp
next
  case (Cons c cs)
  from dispatch_table [of d c] Cons.IH [of "snd (dispatch c d)"] show ?case by auto
qed

lemma store_wf_append:
  assumes "store_wf d" and "table d' = table d @ [r]" and "id_col r = next_id d"
    and "next_id d' = next_id d + 1"
  shows "store_wf d'"
proof -
  from assms(1) have lt: "\<forall>x\<in>set (table d). id_col x < next_id d"
    by (simp add: store_wf_def list_all_iff)
  then have "id_col r \<notin> id_col ` set (table d)"
    using assms(3) by auto
  with assms lt show ?thesis
    by (auto simp: store_wf_def list_all_iff)
qed

lemma store_wf_same_table:
  assumes "store_wf d" and "table d' = table d" and "next_id d \<le> next_id d'"
  shows "store_wf d'"
  using assms by (auto simp: store_wf_def list_all_iff)

lemma store_wf_dispatch:
  assumes "store_wf d"
  shows "store_wf (snd (dispatch c d))"
proof (cases c)
  case (ProcessCard e rq)
  from create_table [of e rq d] create_next_id [of d e rq] assms show ?thesis
    unfolding ProcessCard dispatch.simps
    by (auto intro: store_wf_append store_wf_same_table)
next
  case (GetCards e)
  with assms show ?thesis
    by (auto intro: store_wf_same_table simp: get_cards_table get_cards_next_id)
next
  case (GetCard e i)
  with assms show ?thesis
    by (auto intro: store_wf_same_table simp: get_card_table get_card_next_id)
qed

lemma store_wf_serve: "store_wf d \<Longrightarrow> store_wf (serve cs d)"
  by (induction cs arbitrary: d) (simp_all add: store_wf_dispatch)

lemma created_id:
  assumes "process_business_card e rq d = (resp, d')" and "status resp = 200"
  shows "response_id resp = Some (next_id d)" and "next_id d' = next_id d + 1"
    and "\<exists>r. table d' = table d @ [r] \<and> id_col r = next_id d \<and> dt r = now e"
proof -
  from assms have "status (fst (process_business_card e rq d)) = 200" by simp
  then obtain data n em ph co ws ti ad an where
    ok: "get_data rq = Inr data" "extract_fields data = Inr (n, em, ph, co, ws, ti, ad, an)"
      "any_py [n, em, ph, co]" "store_ok e create_calls"
    by (rule create_status_200)
  from create_ok [OF ok, of d] assms(1)
  show "response_id resp = Some (next_id d)" and "next_id d' = next_id d + 1"
    and "\<exists>r. table d' = table d @ [r] \<and> id_col r = next_id d \<and> dt r = now e"
    by (auto simp: response_id_created)
qed

text \<open>
  C5. The id returned by a successful create is strictly greater than the id returned
  by any earlier successful create on the same store, whatever requests were served in
  between (failed ones included).
\<close>

theorem created_ids_increase:
  assumes "process_business_card e1 rq1 d = (resp1, d1)" and "status resp1 = 200"
    and "process_business_card e2 rq2 (serve cs d1) = (resp2, d2)" and "status resp2 = 200"
  shows "\<exists>i1 i2. response_id resp1 = Some i1 \<and> response_id resp2 = Some i2 \<and> i1 < i2"
proof -
  have "next_id d < next_id d1"
    using created_id(2) [OF assms(1,2)] by simp
  also have "next_id d1 \<le> next_id (serve cs d1)" by (rule serve_next_id)
  finally show ?thesis
    using created_id(1) [OF assms(1,2)] created_id(1) [OF assms(3,4)] by simp
qed

lemma env_failing_Commit [simp]:
  "url_set (env_failing Commit)" "fault (env_failing Commit) Connect = None"
  "fault (env_failing Commit) Cursor = None" "fault (env_failing Commit) Execute = None"
  "fault (env_failing Commit) Fetch = None"
  "fault (env_failing Commit) Commit = Some (lit ''connection reset'')"
  by (simp_all add: env_failing_def url_set_def)

lemma john_doe_commit_fails:
  "next_id (snd (process_business_card (env_failing Commit) john_doe d)) = next_id d + 1"
  "table (snd (process_business_card (env_failing Commit) john_doe d)) = table d"
  "status (fst (process_business_card (env_failing Commit) john_doe d)) = 500"
  by (simp_all add: process_business_card_def process_business_card_try_def john_doe_def
      john_doe_fields any_py_def Let_def db_steps error_response_def)

theorem created_ids_increase_witness:
  "response_id (fst (process_business_card (env_ok 10) john_doe empty_db)) = Some 1
   \<and> response_id (fst (process_business_card (env_ok 30) john_doe
        (serve [GetCard (env_ok 20) 1, ProcessCard (env_failing Commit) john_doe]
           (snd (process_business_card (env_ok 10) john_doe empty_db))))) = Some 3
   \<and> (1::int) < 3"
proof -
  have 1: "status (fst (process_business_card (env_ok 10) john_doe empty_db)) = 200"
    by (simp add: john_doe_created)
  have 2: "status (fst (process_business_card (env_ok 30) john_doe
        (serve [GetCard (env_ok 20) 1, ProcessCard (env_failing Commit) john_doe]
           (snd (process_business_card (env_ok 10) john_doe empty_db))))) = 200"
    by (simp add: john_doe_created)
  from created_ids_increase [OF surjective_pairing 1 surjective_pairing 2]
  obtain i1 i2 where
    "response_id (fst (process_business_card (env_ok 10) john_doe empty_db)) = Some i1"
    "response_id (fst (process_business_card (env_ok 30) john_doe
        (serve [GetCard (env_ok 20) 1, ProcessCard (env_failing Commit) john_doe]
           (snd (process_business_card (env_ok 10) john_doe empty_db))))) = Some i2"
    "i1 < i2"
    by blast
  then show ?thesis
    by (simp add: john_doe_created response_id_created get_card_next_id
        john_doe_commit_fails empty_db_def)
qed

section \<open>Fetching one card\<close>

lemma unique_row_with_id:
  assumes "distinct (map id_col rows)" and "r \<in> set rows"
  shows "filter (\<lambda>x. id_col x = id_col r) rows = [r]"
  using assms
proof (induction rows)
  case Nil
  then show ?case by simp
next
  case (Cons a rows)
  show ?case
  proof (cases "a = r")
    case True
    with Cons.prems have "id_col r \<notin> set (map id_col rows)" by simp
    then have "\<forall>x\<in>set rows. id_col x \<noteq> id_col r" by (metis image_eqI set_map)
    then have "filter (\<lambda>x. id_col x = id_col r) rows = []"
      by (simp add: filter_empty_conv)
    with True show ?thesis by simp
  next
    case False
    with Cons.prems have "r \<in> set rows" and "id_col a \<noteq> id_col r" by auto
    with Cons show ?thesis by simp
  qed
qed

lemma fetch_after_serve:
  assumes "store_wf d" and "r \<in> set (table d)" and "store_ok e read_calls"
  shows "fst (get_card e (id_col r) (serve cs d)) =
           \<lparr>status = 200, body = PDict [(lit ''card'', dict_of_row r)]\<rparr>"
proof -
  from assms(1) have "store_wf (serve cs d)" by (rule store_wf_serve)
  then have "distinct (map id_col (table (serve cs d)))" by (simp add: store_wf_def)
  moreover from assms(2) serve_table [of d cs] have "r \<in> set (table (serve cs d))" by auto
  ultimately have "filter (\<lambda>x. id_col x = id_col r) (table (serve cs d)) = [r]"
    by (rule unique_row_with_id)
  then show ?thesis by (simp add: get_card_ok [OF assms(3)])
qed

text \<open>
  C2. Take a create request that binds each of the eight fields to a string (or leaves
  it out) and has at least one of name, email, phone, company non-empty after trimming,
  a store that answers, and a table with unique ids below its sequence (which every
  request preserves). The request is answered with status 200 and an id, and a
  get-by-id with that id, right away or after any further requests, returns the row
  whose full_name, email, phone, company_name and website are the trimmed inputs and
  whose notes column is the newline-joined lines "Title: ...", "Address: ...",
  "Notes: ...", in that order, one for each sub-field that is not empty after trimming.
\<close>

theorem created_card_can_be_fetched:
  assumes "get_data rq = Inr (PDict items)"
    and "field_trimmed_to items ''name'' n" and "field_trimmed_to items ''email'' em"
    and "field_trimmed_to items ''phone'' ph" and "field_trimmed_to items ''company'' co"
    and "field_trimmed_to items ''website'' ws" and "field_trimmed_to items ''title'' ti"
    and "field_trimmed_to items ''address'' ad" and "field_trimmed_to items ''notes'' an"
    and "n \<noteq> [] \<or> em \<noteq> [] \<or> ph \<noteq> [] \<or> co \<noteq> []"
    and "store_ok e create_calls" and "store_ok e' read_calls" and "store_wf d"
  shows "\<exists>resp d' i.
           process_business_card e rq d = (resp, d') \<and> status resp = 200
         \<and> response_id resp = Some i
         \<and> fst (get_card e' i (serve cs d')) =
             \<lparr>status = 200,
              body = PDict [(lit ''card'',
                PDict [(lit ''id'', PInt i),
                       (lit ''full_name'', PStr n),
                       (lit ''email'', PStr em),
                       (lit ''phone'', PStr ph),
                       (lit ''company_name'', PStr co),
                       (lit ''website'', PStr ws),
                       (lit ''notes'', PStr (spec_notes ti ad an)),
                       (lit ''dt'', PDatetime (now e))])]\<rparr>"
proof -
  let ?r = "\<lparr>id_col = next_id d, full_name = Some n, email = Some em, phone = Some ph,
             company_name = Some co, website = Some ws,
             notes = Some (combine_notes ti ad an), dt = now e\<rparr>"
  let ?d' = "d\<lparr>table := table d @ [?r], next_id := next_id d + 1, pending := [],
               log := log d @ create_calls\<rparr>"
  from assms(2-9) have x: "extract_fields (PDict items) = Inr (n, em, ph, co, ws, ti, ad, an)"
    by (simp add: extract_fields_trimmed)
  from assms(10) have a: "any_py [n, em, ph, co]" by (auto simp: any_py_def)
  note c = create_ok [OF assms(1) x a assms(11), of d]
  have "store_wf ?d'"
    by (rule store_wf_append [OF assms(13), of _ ?r]) simp_all
  moreover have "?r \<in> set (table ?d')" by simp
  ultimately have "fst (get_card e' (id_col ?r) (serve cs ?d')) =
      \<lparr>status = 200, body = PDict [(lit ''card'', dict_of_row ?r)]\<rparr>"
    using assms(12) by (rule fetch_after_serve)
  then show ?thesis
    by (simp add: c response_id_created dict_of_row_def text_col_def combine_notes_spec)
qed

theorem created_card_can_be_fetched_witness:
  "\<exists>resp d'.
     process_business_card (env_ok 1700000000) jane_roe
       (serve [ProcessCard (env_ok 1600000000) john_doe] empty_db) = (resp, d')
   \<and> status resp = 200 \<and> response_id resp = Some 2
   \<and> fst (get_card (env_ok 1700000060) 2
            (serve [ProcessCard (env_failing Commit) john_doe, GetCards (env_ok 1700000030)]
               d')) =
       \<lparr>status = 200,
        body = PDict [(lit ''card'',
          PDict [(lit ''id'', PInt 2),
                 (lit ''full_name'', PStr (lit ''Jane Roe'')),
                 (lit ''email'', PStr (lit ''jane@example.org'')),
                 (lit ''phone'', PStr []),
                 (lit ''company_name'', PStr []),
                 (lit ''website'', PStr []),
                 (lit ''notes'',
                  PStr (lit ''Title: CTO'' @ lit [CHR 0x0A] @ lit ''Notes: call back'')),
                 (lit ''dt'', PDatetime 1700000000)])]\<rparr>"
proof -
  let ?d = "serve [ProcessCard (env_ok 1600000000) john_doe] empty_db"
  have n: "lit ''Jane Roe'' \<noteq> [] \<or> lit ''jane@example.org'' \<noteq> [] \<or> ([]::pystr) \<noteq> []
      \<or> ([]::pystr) \<noteq> []"
    by simp
  have wf: "store_wf ?d"
    by (rule store_wf_serve) (rule store_wf_empty_db)
  have tr: "field_trimmed_to jane_roe_items ''name'' (lit ''Jane Roe'')"
    "field_trimmed_to jane_roe_items ''email'' (lit ''jane@example.org'')"
    "field_trimmed_to jane_roe_items ''phone'' []"
    "field_trimmed_to jane_roe_items ''company'' []"
    "field_trimmed_to jane_roe_items ''website'' []"
    "field_trimmed_to jane_roe_items ''title'' (lit ''CTO'')"
    "field_trimmed_to jane_roe_items ''address'' []"
    "field_trimmed_to jane_roe_items ''notes'' (lit ''call back'')"
    unfolding field_trimmed [symmetric]
    by (simp_all add: jane_roe_items_def field_dict strip_def lit_def isspace_def)
  from created_card_can_be_fetched [OF jane_roe_data tr n
      store_ok_env_ok(1) store_ok_env_ok(2) wf,
      of 1700000000 1700000060
        "[ProcessCard (env_failing Commit) john_doe, GetCards (env_ok 1700000030)]"]
  obtain resp d' i where
    c: "process_business_card (env_ok 1700000000) jane_roe ?d = (resp, d')"
    and s: "status resp = 200" and i: "response_id resp = Some i"
    and g: "fst (get_card (env_ok 1700000060) i
            (serve [ProcessCard (env_failing Commit) john_doe, GetCards (env_ok 1700000030)]
               d')) =
       \<lparr>status = 200,
        body = PDict [(lit ''card'',
          PDict [(lit ''id'', PInt i),
                 (lit ''full_name'', PStr (lit ''Jane Roe'')),
                 (lit ''email'', PStr (lit ''jane@example.org'')),
                 (lit ''phone'', PStr []),
                 (lit ''company_name'', PStr []),
                 (lit ''website'', PStr []),
                 (lit ''notes'', PStr (spec_notes (lit ''CTO'') [] (lit ''call back''))),
                 (lit ''dt'', PDatetime (now (env_ok 1700000000)))])]\<rparr>"
    by blast
  from created_id(1) [OF c s] i have "i = 2"
    by (simp add: john_doe_created empty_db_def)
  with c s i g show ?thesis
    by (simp add: spec_notes_jane_roe)
qed

text \<open>
  C7. Get-by-id returns the full stored row with that id when there is one: status 200
  and a card with the eight columns id, full_name, email, phone, company_name, website,
  notes, dt of that row (a NULL column as null). It returns the body
  \<open>{error: "Card not found"}\<close> with status 404 when no row has that id, and, when the
  store fails (no connection string, or a driver call raises), an error with status
  500, which is not the 404 answer.
\<close>

theorem get_card_outcomes:
  "(store_ok e read_calls \<and> store_wf d \<and> r \<in> set (table d) \<and> id_col r = card_id \<longrightarrow>
      fst (get_card e card_id d) =
        \<lparr>status = 200,
         body = PDict [(lit ''card'',
           PDict [(lit ''id'', PInt (id_col r)),
                  (lit ''full_name'', case full_name r of None \<Rightarrow> PNone | Some s \<Rightarrow> PStr s),
                  (lit ''email'', case email r of None \<Rightarrow> PNone | Some s \<Rightarrow> PStr s),
                  (lit ''phone'', case phone r of None \<Rightarrow> PNone | Some s \<Rightarrow> PStr s),
                  (lit ''company_name'',
                   case company_name r of None \<Rightarrow> PNone | Some s \<Rightarrow> PStr s),
                  (lit ''website'', case website r of None \<Rightarrow> PNone | Some s \<Rightarrow> PStr s),
                  (lit ''notes'', case notes r of None \<Rightarrow> PNone | Some s \<Rightarrow> PStr s),
                  (lit ''dt'', PDatetime (dt r))])]\<rparr>)
   \<and> (store_ok e read_calls \<and> (\<forall>x\<in>set (table d). id_col x \<noteq> card_id) \<longrightarrow>
      fst (get_card e card_id d) =
        \<lparr>status = 404, body = PDict [(lit ''error'', PStr (lit ''Card not found''))]\<rparr>)
   \<and> (\<not> store_ok e read_calls \<longrightarrow>
      (\<exists>m. fst (get_card e card_id d) =
        \<lparr>status = 500,
         body = PDict [(lit ''error'', PStr (lit ''Failed to fetch card: '' @ m))]\<rparr>))"
proof (intro conjI impI)
  assume a: "store_ok e read_calls \<and> store_wf d \<and> r \<in> set (table d) \<and> id_col r = card_id"
  then have "filter (\<lambda>x. id_col x = card_id) (table d) = [r]"
    using unique_row_with_id [of "table d" r] by (auto simp: store_wf_def)
  with a have "fst (get_card e card_id d) =
      \<lparr>status = 200, body = PDict [(lit ''card'', dict_of_row r)]\<rparr>"
    by (simp add: get_card_ok)
  then show "fst (get_card e card_id d) =
        \<lparr>status = 200,
         body = PDict [(lit ''card'',
           PDict [(lit ''id'', PInt (id_col r)),
                  (lit ''full_name'', case full_name r of None \<Rightarrow> PNone | Some s \<Rightarrow> PStr s),
                  (lit ''email'', case email r of None \<Rightarrow> PNone | Some s \<Rightarrow> PStr s),
                  (lit ''phone'', case phone r of None \<Rightarrow> PNone | Some s \<Rightarrow> PStr s),
                  (lit ''company_name'',
                   case company_name r of None \<Rightarrow> PNone | Some s \<Rightarrow> PStr s),
                  (lit ''website'', case website r of None \<Rightarrow> PNone | Some s \<Rightarrow> PStr s),
                  (lit ''notes'', case notes r of None \<Rightarrow> PNone | Some s \<Rightarrow> PStr s),
                  (lit ''dt'', PDatetime (dt r))])]\<rparr>"
    by (simp add: dict_of_row_def text_col_def)
next
  assume a: "store_ok e read_calls \<and> (\<forall>x\<in>set (table d). id_col x \<noteq> card_id)"
  then have "filter (\<lambda>x. id_col x = card_id) (table d) = []"
    by (simp add: filter_empty_conv)
  with a show "fst (get_card e card_id d) =
      \<lparr>status = 404, body = PDict [(lit ''error'', PStr (lit ''Card not found''))]\<rparr>"
    by (simp add: get_card_ok error_response_def)
next
  assume "\<not> store_ok e read_calls"
  from get_card_store_down [OF this, of card_id d]
  show "\<exists>m. fst (get_card e card_id d) =
      \<lparr>status = 500,
       body = PDict [(lit ''error'', PStr (lit ''Failed to fetch card: '' @ m))]\<rparr>"
    by (auto simp: error_response_def)
qed

lemma store_ok_env_failing [simp]: "\<not> store_ok (env_failing Execute) read_calls"
  by (simp add: env_failing_def store_ok_def read_calls_def)

theorem get_card_outcomes_witness:
  "fst (get_card (env_ok 5) 1
        \<lparr>table = [\<lparr>id_col = 1, full_name = Some (lit ''John Doe''), email = None,
                   phone = None, company_name = None, website = None, notes = Some [],
                   dt = 3\<rparr>],
         next_id = 2, pending = [], log = []\<rparr>) =
     \<lparr>status = 200,
      body = PDict [(lit ''card'',
        PDict [(lit ''id'', PInt 1),
               (lit ''full_name'', PStr (lit ''John Doe'')),
               (lit ''email'', PNone),
               (lit ''phone'', PNone),
               (lit ''company_name'', PNone),
               (lit ''website'', PNone),
               (lit ''notes'', PStr []),
               (lit ''dt'', PDatetime 3)])]\<rparr>
   \<and> fst (get_card (env_ok 5) 999999 empty_db) =
     \<lparr>status = 404, body = PDict [(lit ''error'', PStr (lit ''Card not found''))]\<rparr>
   \<and> (\<exists>m. fst (get_card (env_failing Execute) 1 empty_db) =
     \<lparr>status = 500,
      body = PDict [(lit ''error'', PStr (lit ''Failed to fetch card: '' @ m))]\<rparr>)"
proof -
  let ?r = "\<lparr>id_col = 1, full_name = Some (lit ''John Doe''), email = None,
             phone = None, company_name = None, website = None, notes = Some [], dt = 3\<rparr>"
  let ?d = "\<lparr>table = [?r], next_id = 2, pending = [], log = []\<rparr>"
  have wf: "store_wf ?d" by (simp add: store_wf_def)
  from get_card_outcomes [of "env_ok 5" ?d ?r 1] wf
  have 1: "fst (get_card (env_ok 5) 1 ?d) =
     \<lparr>status = 200,
      body = PDict [(lit ''card'',
        PDict [(lit ''id'', PInt 1),
               (lit ''full_name'', PStr (lit ''John Doe'')),
               (lit ''email'', PNone),
               (lit ''phone'', PNone),
               (lit ''company_name'', PNone),
               (lit ''website'', PNone),
               (lit ''notes'', PStr []),
               (lit ''dt'', PDatetime 3)])]\<rparr>"
    by simp
  from get_card_outcomes [of "env_ok 5" empty_db ?r 999999]
  have 2: "fst (get_card (env_ok 5) 999999 empty_db) =
      \<lparr>status = 404, body = PDict [(lit ''error'', PStr (lit ''Card not found''))]\<rparr>"
    by (simp add: empty_db_def)
  from get_card_outcomes [of "env_failing Execute" empty_db ?r 1]
  have 3: "\<exists>m. fst (get_card (env_failing Execute) 1 empty_db) =
      \<lparr>status = 500,
       body = PDict [(lit ''error'', PStr (lit ''Failed to fetch card: '' @ m))]\<rparr>"
    by simp
  from 1 2 3 show ?thesis by blast
qed

lemma get_card_response:
  "fst (get_card e card_id d) =
     (if \<not> url_set e then
        error_response 500 (lit ''Failed to fetch card: ''
                            @ lit ''DATABASE_URL environment variable is required'')
      else case first_fault e read_calls of
        Some m \<Rightarrow> error_response 500 (lit ''Failed to fetch card: '' @ m)
      | None \<Rightarrow>
          (case filter (\<lambda>r. id_col r = card_id) (table d) of
             [] \<Rightarrow> error_response 404 (lit ''Card not found'')
           | r # _ \<Rightarrow> \<lparr>status = 200, body = PDict [(lit ''card'', dict_of_row r)]\<rparr>))"
  by (simp add: get_card_def get_card_try_def db_steps read_calls_def
      split: option.split list.split)

lemma get_card_response_depends:
  assumes "table d1 = table d2" and "database_url e1 = database_url e2"
    and "fault e1 = fault e2"
  shows "fst (get_card e1 card_id d1) = fst (get_card e2 card_id d2)"
proof -
  have "url_set e1 = url_set e2"
    using assms(2) by (simp add: url_set_def)
  moreover have "first_fault e1 cs = first_fault e2 cs" for cs
    by (induction cs) (simp_all add: assms(3) split: option.split)
  ultimately show ?thesis
    by (simp only: get_card_response assms(1))
qed

text \<open>
  C8. Get-by-id changes neither the table nor the id sequence, and evaluating it again
  with the same id on the store it left, at any later time, returns the same response.
\<close>

theorem get_card_read_only:
  "table (snd (get_card e card_id d)) = table d
   \<and> next_id (snd (get_card e card_id d)) = next_id d
   \<and> fst (get_card (e\<lparr>now := t\<rparr>) card_id (snd (get_card e card_id d))) =
       fst (get_card e card_id d)"
proof (intro conjI)
  show "table (snd (get_card e card_id d)) = table d" by (rule get_card_table)
  show "next_id (snd (get_card e card_id d)) = next_id d" by (rule get_card_next_id)
  show "fst (get_card (e\<lparr>now := t\<rparr>) card_id (snd (get_card e card_id d))) =
      fst (get_card e card_id d)"
    by (rule get_card_response_depends) (simp_all add: get_card_table)
qed

theorem get_card_read_only_witness:
  "table (snd (get_card (env_ok 5) 1 empty_db)) = table empty_db
   \<and> next_id (snd (get_card (env_ok 5) 1 empty_db)) = next_id empty_db
   \<and> fst (get_card ((env_ok 5)\<lparr>now := 6\<rparr>) 1 (snd (get_card (env_ok 5) 1 empty_db))) =
       fst (get_card (env_ok 5) 1 empty_db)"
  by (rule get_card_read_only)

section \<open>Listing\<close>







section \<open>Releasing the connection\<close>

lemma release_create:
  assumes "list_all (\<lambda>c. fault e c = None) [Cursor, Execute, Fetch, Commit, CloseCursor, CloseConn]"
  shows "log (snd (process_business_card e rq d)) = log d
       \<or> log (snd (process_business_card e rq d)) = log d @ create_calls"
proof (cases rule: create_cases [where rq = rq and e = e])
  case undecodable
  then show ?thesis by (simp add: create_undecodable)
next
  case bad_field
  then show ?thesis by (simp add: create_bad_field)
next
  case invalid
  then show ?thesis by (simp add: create_invalid)
next
  case store_down
  with assms have "\<not> url_set e \<or> fault e Connect \<noteq> None"
    by (auto simp: store_ok_create)
  with store_down(1-3) show ?thesis
    by (auto simp: process_business_card_def process_business_card_try_def bnd_connect Let_def)
next
  case saved
  then show ?thesis by (simp add: create_ok)
qed

lemma release_get_cards:
  assumes "list_all (\<lambda>c. fault e c = None) [Cursor, Execute, Fetch, CloseCursor, CloseConn]"
  shows "log (snd (get_cards e d)) = log d \<or> log (snd (get_cards e d)) = log d @ read_calls"
proof (cases "store_ok e read_calls")
  case True
  then show ?thesis by (simp add: get_cards_ok)
next
  case False
  with assms have "\<not> url_set e \<or> fault e Connect \<noteq> None"
    by (auto simp: store_ok_read)
  then show ?thesis
    by (auto simp: get_cards_def get_cards_try_def bnd_connect)
qed

lemma release_get_card:
  assumes "list_all (\<lambda>c. fault e c = None) [Cursor, Execute, Fetch, CloseCursor, CloseConn]"
  shows "log (snd (get_card e card_id d)) = log d
       \<or> log (snd (get_card e card_id d)) = log d @ read_calls"
proof (cases "store_ok e read_calls")
  case True
  then show ?thesis by (simp add: get_card_ok)
next
  case False
  with assms have "\<not> url_set e \<or> fault e Connect \<noteq> None"
    by (auto simp: store_ok_read)
  then show ?thesis
    by (auto simp: get_card_def get_card_try_def bnd_connect)
qed

lemma released_calls [simp]:
  "connection_released []" "connection_released create_calls" "connection_released read_calls"
  by (simp_all add: connection_released_def create_calls_def read_calls_def)

lemma get_card_log:
  "log (snd (get_card e card_id d)) =
     log d @ (if url_set e then takeWhile (\<lambda>c. fault e c = None) read_calls else [])"
  by (simp add: get_card_def get_card_try_def db_steps read_calls_def
      split: option.split list.split)

lemma get_cards_log:
  "log (snd (get_cards e d)) =
     log d @ (if url_set e then takeWhile (\<lambda>c. fault e c = None) read_calls else [])"
  by (simp add: get_cards_def get_cards_try_def db_steps read_calls_def
      split: option.split list.split)

lemma create_log:
  assumes "get_data rq = Inr data"
    and "extract_fields data = Inr (n, em, ph, co, ws, ti, ad, an)"
    and "any_py [n, em, ph, co]"
  shows "log (snd (process_business_card e rq d)) =
     log d @ (if url_set e then takeWhile (\<lambda>c. fault e c = None) create_calls else [])"
  using assms
  by (simp add: process_business_card_def process_business_card_try_def db_steps Let_def
      create_calls_def split: option.split)

lemma create_log_cases:
  "log (snd (process_business_card e rq d)) = log d
   \<or> log (snd (process_business_card e rq d)) =
       log d @ (if url_set e then takeWhile (\<lambda>c. fault e c = None) create_calls else [])"
proof (cases rule: create_cases [where rq = rq and e = e])
  case undecodable
  then show ?thesis by (simp add: create_undecodable)
next
  case bad_field
  then show ?thesis by (simp add: create_bad_field)
next
  case invalid
  then show ?thesis by (simp add: create_invalid)
next
  case store_down
  then show ?thesis using create_log [of rq _ _ _ _ _ _ _ _ _ e d] by blast
next
  case saved
  then show ?thesis using create_log [of rq _ _ _ _ _ _ _ _ _ e d] by blast
qed

lemma create_status_500:
  assumes "log (snd (process_business_card e rq d)) \<noteq> log d"
    and "\<not> store_ok e create_calls"
  shows "status (fst (process_business_card e rq d)) = 500"
proof (cases rule: create_cases [where rq = rq and e = e])
  case undecodable
  with assms(1) show ?thesis by (simp add: create_undecodable)
next
  case bad_field
  with assms(1) show ?thesis by (simp add: create_bad_field)
next
  case invalid
  with assms(1) show ?thesis by (simp add: create_invalid)
next
  case store_down
  from create_store_down [OF this, of d] show ?thesis
    by (auto simp: error_response_def)
next
  case saved
  with assms(2) show ?thesis by simp
qed

lemma leak_read:
  assumes "Connect \<in> set (takeWhile (\<lambda>c. fault e c = None) read_calls)"
    and "\<not> list_all (\<lambda>c. fault e c = None) [Cursor, Execute, Fetch, CloseCursor, CloseConn]"
  shows "CloseConn \<notin> set (takeWhile (\<lambda>c. fault e c = None) read_calls)"
    and "\<not> connection_released (takeWhile (\<lambda>c. fault e c = None) read_calls)"
  using assms by (auto simp: read_calls_def connection_released_def split: if_splits)

lemma leak_create:
  assumes "Connect \<in> set (takeWhile (\<lambda>c. fault e c = None) create_calls)"
    and "\<not> list_all (\<lambda>c. fault e c = None)
           [Cursor, Execute, Fetch, Commit, CloseCursor, CloseConn]"
  shows "CloseConn \<notin> set (takeWhile (\<lambda>c. fault e c = None) create_calls)"
    and "\<not> connection_released (takeWhile (\<lambda>c. fault e c = None) create_calls)"
  using assms by (auto simp: create_calls_def connection_released_def split: if_splits)

lemma leak_get_card:
  assumes "log (snd (get_card e card_id d)) = log d @ calls" and "Connect \<in> set calls"
    and "\<not> list_all (\<lambda>c. fault e c = None) [Cursor, Execute, Fetch, CloseCursor, CloseConn]"
  shows "status (fst (get_card e card_id d)) = 500 \<and> CloseConn \<notin> set calls
       \<and> \<not> connection_released calls"
proof -
  from assms(1) have c: "calls = (if url_set e then takeWhile (\<lambda>c. fault e c = None) read_calls
      else [])"
    by (simp add: get_card_log)
  with assms(2) have t: "calls = takeWhile (\<lambda>c. fault e c = None) read_calls"
    by (simp split: if_splits)
  from assms(3) have "\<not> store_ok e read_calls" by (auto simp: store_ok_read)
  from get_card_store_down [OF this, of card_id d]
  have "status (fst (get_card e card_id d)) = 500" by (auto simp: error_response_def)
  with leak_read [of e] assms(2,3) t show ?thesis by simp
qed

lemma leak_get_cards:
  assumes "log (snd (get_cards e d)) = log d @ calls" and "Connect \<in> set calls"
    and "\<not> list_all (\<lambda>c. fault e c = None) [Cursor, Execute, Fetch, CloseCursor, CloseConn]"
  shows "status (fst (get_cards e d)) = 500 \<and> CloseConn \<notin> set calls
       \<and> \<not> connection_released calls"
proof -
  from assms(1) have c: "calls = (if url_set e then takeWhile (\<lambda>c. fault e c = None) read_calls
      else [])"
    by (simp add: get_cards_log)
  with assms(2) have t: "calls = takeWhile (\<lambda>c. fault e c = None) read_calls"
    by (simp split: if_splits)
  from assms(3) have "\<not> store_ok e read_calls" by (auto simp: store_ok_read)
  from get_cards_store_down [OF this, of d]
  have "status (fst (get_cards e d)) = 500" by (auto simp: error_response_def)
  with leak_read [of e] assms(2,3) t show ?thesis by simp
qed

lemma leak_process_business_card:
  assumes "log (snd (process_business_card e rq d)) = log d @ calls" and "Connect \<in> set calls"
    and "\<not> list_all (\<lambda>c. fault e c = None)
           [Cursor, Execute, Fetch, Commit, CloseCursor, CloseConn]"
  shows "status (fst (process_business_card e rq d)) = 500 \<and> CloseConn \<notin> set calls
       \<and> \<not> connection_released calls"
proof -
  from assms(1,2) have ne: "log (snd (process_business_card e rq d)) \<noteq> log d" by auto
  with create_log_cases [of e rq d] assms(1)
  have "calls = (if url_set e then takeWhile (\<lambda>c. fault e c = None) create_calls else [])"
    by auto
  with assms(2) have t: "calls = takeWhile (\<lambda>c. fault e c = None) create_calls"
    by (simp split: if_splits)
  from assms(3) have "\<not> store_ok e create_calls" by (auto simp: store_ok_create)
  with ne have "status (fst (process_business_card e rq d)) = 500"
    by (rule create_status_500)
  with leak_create [of e] assms(2,3) t show ?thesis by simp
qed

text \<open>
  C3, as the code has it. For each of create, list and get-by-id: when no driver call
  made after the connection was opened raises, the handler either opens no connection at
  all or makes exactly its calls in order, ending with the close of the connection (for
  create, the commit comes before the close), so the connection it opened is closed when
  it returns. The handlers have no \<open>finally\<close> clause: whenever the handler opened a
  connection and a later driver call raises, it answers with status 500 and no close of
  the connection has completed (close is never called, or it is the call that raised).
\<close>

theorem connection_closed_unless_call_fails:
  "(list_all (\<lambda>c. fault e c = None) [Cursor, Execute, Fetch, Commit, CloseCursor, CloseConn] \<longrightarrow>
      (\<exists>calls. log (snd (process_business_card e rq d)) = log d @ calls
         \<and> (calls = [] \<or> calls = [Connect, Cursor, Execute, Fetch, Commit, CloseCursor, CloseConn])
         \<and> connection_released calls))
   \<and> (\<forall>calls. log (snd (process_business_card e rq d)) = log d @ calls \<and> Connect \<in> set calls
         \<and> \<not> list_all (\<lambda>c. fault e c = None)
               [Cursor, Execute, Fetch, Commit, CloseCursor, CloseConn] \<longrightarrow>
       status (fst (process_business_card e rq d)) = 500 \<and> CloseConn \<notin> set calls
         \<and> \<not> connection_released calls)
   \<and> (list_all (\<lambda>c. fault e c = None) [Cursor, Execute, Fetch, CloseCursor, CloseConn] \<longrightarrow>
      (\<exists>calls. log (snd (get_cards e d)) = log d @ calls
         \<and> (calls = [] \<or> calls = [Connect, Cursor, Execute, Fetch, CloseCursor, CloseConn])
         \<and> connection_released calls)
      \<and> (\<exists>calls. log (snd (get_card e card_id d)) = log d @ calls
         \<and> (calls = [] \<or> calls = [Connect, Cursor, Execute, Fetch, CloseCursor, CloseConn])
         \<and> connection_released calls))
   \<and> (\<forall>calls. log (snd (get_cards e d)) = log d @ calls \<and> Connect \<in> set calls
         \<and> \<not> list_all (\<lambda>c. fault e c = None) [Cursor, Execute, Fetch, CloseCursor, CloseConn] \<longrightarrow>
       status (fst (get_cards e d)) = 500 \<and> CloseConn \<notin> set calls
         \<and> \<not> connection_released calls)
   \<and> (\<forall>calls. log (snd (get_card e card_id d)) = log d @ calls \<and> Connect \<in> set calls
         \<and> \<not> list_all (\<lambda>c. fault e c = None) [Cursor, Execute, Fetch, CloseCursor, CloseConn] \<longrightarrow>
       status (fst (get_card e card_id d)) = 500 \<and> CloseConn \<notin> set calls
         \<and> \<not> connection_released calls)"
proof -
  have 1: "\<exists>calls. log (snd (process_business_card e rq d)) = log d @ calls
         \<and> (calls = [] \<or> calls = [Connect, Cursor, Execute, Fetch, Commit, CloseCursor, CloseConn])
         \<and> connection_released calls"
    if "list_all (\<lambda>c. fault e c = None) [Cursor, Execute, Fetch, Commit, CloseCursor, CloseConn]"
    using release_create [OF that, of rq d] released_calls by (auto simp: create_calls_def)
  have 2: "\<exists>calls. log (snd (get_cards e d)) = log d @ calls
         \<and> (calls = [] \<or> calls = [Connect, Cursor, Execute, Fetch, CloseCursor, CloseConn])
         \<and> connection_released calls"
    if "list_all (\<lambda>c. fault e c = None) [Cursor, Execute, Fetch, CloseCursor, CloseConn]"
    using release_get_cards [OF that, of d] released_calls by (auto simp: read_calls_def)
  have 3: "\<exists>calls. log (snd (get_card e card_id d)) = log d @ calls
         \<and> (calls = [] \<or> calls = [Connect, Cursor, Execute, Fetch, CloseCursor, CloseConn])
         \<and> connection_released calls"
    if "list_all (\<lambda>c. fault e c = None) [Cursor, Execute, Fetch, CloseCursor, CloseConn]"
    using release_get_card [OF that, of card_id d] released_calls by (auto simp: read_calls_def)
  from 1 2 3 leak_process_business_card [of e rq d] leak_get_cards [of e d]
    leak_get_card [of e card_id d]
  show ?thesis by blast
qed

lemma env_failing_Execute [simp]:
  "url_set (env_failing Execute)" "fault (env_failing Execute) Connect = None"
  "fault (env_failing Execute) Cursor = None"
  "fault (env_failing Execute) Execute = Some (lit ''connection reset'')"
  by (simp_all add: env_failing_def url_set_def)

lemma env_failing_Execute_log:
  "log (snd (process_business_card (env_failing Execute) john_doe empty_db)) =
     log empty_db @ [Connect, Cursor]"
  "log (snd (get_cards (env_failing Execute) empty_db)) = log empty_db @ [Connect, Cursor]"
  "log (snd (get_card (env_failing Execute) 1 empty_db)) = log empty_db @ [Connect, Cursor]"
proof -
  have "get_data john_doe = Inr (PDict
       [(lit ''name'', PStr (lit ''John Doe'')),
        (lit ''email'', PStr (lit ''john@techcorp.com'')),
        (lit ''phone'', PStr (lit ''5551234567'')),
        (lit ''company'', PStr (lit ''Tech Corp'')),
        (lit ''title'', PStr (lit ''Software Engineer'')),
        (lit ''website'', PStr (lit ''techcorp.com'')),
        (lit ''address'', PStr (lit ''123 Main St, City, State'')),
        (lit ''notes'', PStr (lit ''Met at tech conference 2024''))])"
    by (simp add: john_doe_def)
  from create_log [OF this john_doe_fields, of "env_failing Execute" empty_db]
  show "log (snd (process_business_card (env_failing Execute) john_doe empty_db)) =
     log empty_db @ [Connect, Cursor]"
    by (simp add: any_py_def create_calls_def)
  show "log (snd (get_cards (env_failing Execute) empty_db)) = log empty_db @ [Connect, Cursor]"
    by (simp add: get_cards_log read_calls_def)
  show "log (snd (get_card (env_failing Execute) 1 empty_db)) = log empty_db @ [Connect, Cursor]"
    by (simp add: get_card_log read_calls_def)
qed

theorem connection_closed_unless_call_fails_witness:
  "(\<exists>calls. log (snd (process_business_card (env_ok 10) john_doe empty_db)) = log empty_db @ calls
      \<and> (calls = [] \<or> calls = [Connect, Cursor, Execute, Fetch, Commit, CloseCursor, CloseConn])
      \<and> connection_released calls)
   \<and> (\<exists>calls. log (snd (get_cards (env_ok 10) empty_db)) = log empty_db @ calls
      \<and> (calls = [] \<or> calls = [Connect, Cursor, Execute, Fetch, CloseCursor, CloseConn])
      \<and> connection_released calls)
   \<and> (\<exists>calls. log (snd (get_card (env_ok 10) 1 empty_db)) = log empty_db @ calls
      \<and> (calls = [] \<or> calls = [Connect, Cursor, Execute, Fetch, CloseCursor, CloseConn])
      \<and> connection_released calls)
   \<and> status (fst (process_business_card (env_failing Execute) john_doe empty_db)) = 500
   \<and> status (fst (get_cards (env_failing Execute) empty_db)) = 500
   \<and> status (fst (get_card (env_failing Execute) 1 empty_db)) = 500
   \<and> CloseConn \<notin> set [Connect, Cursor] \<and> \<not> connection_released [Connect, Cursor]"
proof -
  have ok: "list_all (\<lambda>c. fault (env_ok 10) c = None)
      [Cursor, Execute, Fetch, Commit, CloseCursor, CloseConn]"
    "list_all (\<lambda>c. fault (env_ok 10) c = None) [Cursor, Execute, Fetch, CloseCursor, CloseConn]"
    by (simp_all add: env_ok_def)
  have bad: "\<not> list_all (\<lambda>c. fault (env_failing Execute) c = None)
      [Cursor, Execute, Fetch, Commit, CloseCursor, CloseConn]"
    "\<not> list_all (\<lambda>c. fault (env_failing Execute) c = None)
      [Cursor, Execute, Fetch, CloseCursor, CloseConn]"
    "Connect \<in> set [Connect, Cursor]"
    by simp_all
  from connection_closed_unless_call_fails [of "env_ok 10" john_doe empty_db 1] ok
    connection_closed_unless_call_fails [of "env_failing Execute" john_doe empty_db 1] bad
    env_failing_Execute_log
  show ?thesis by blast
qed

text \<open>
  With a driver that raises at \<open>execute\<close>, each handler answers 500 and leaves the
  connection it opened unclosed.
\<close>

theorem connection_left_open_counterexample:
  "status (fst (get_card (env_failing Execute) 1 empty_db)) = 500
   \<and> log (snd (get_card (env_failing Execute) 1 empty_db)) = [Connect, Cursor]
   \<and> \<not> connection_released (log (snd (get_card (env_failing Execute) 1 empty_db)))
   \<and> \<not> connection_released (log (snd (get_cards (env_failing Execute) empty_db)))
   \<and> \<not> connection_released
         (log (snd (process_business_card (env_failing Execute) john_doe empty_db)))"
proof -
  have 1: "get_card (env_failing Execute) 1 empty_db =
      (error_response 500 (lit ''Failed to fetch card: '' @ lit ''connection reset''),
       empty_db\<lparr>pending := [], log := [Connect, Cursor]\<rparr>)"
    by (simp add: get_card_def get_card_try_def db_steps empty_db_def)
  have 2: "get_cards (env_failing Execute) empty_db =
      (error_response 500 (lit ''Failed to fetch cards: '' @ lit ''connection reset''),
       empty_db\<lparr>pending := [], log := [Connect, Cursor]\<rparr>)"
    by (simp add: get_cards_def get_cards_try_def db_steps empty_db_def)
  have 3: "process_business_card (env_failing Execute) john_doe empty_db =
      (error_response 500 (lit ''Save failed: '' @ lit ''connection reset''),
       empty_db\<lparr>pending := [], log := [Connect, Cursor]\<rparr>)"
    by (simp add: process_business_card_def process_business_card_try_def john_doe_def
        john_doe_fields any_py_def Let_def db_steps empty_db_def)
  show ?thesis
    by (simp add: 1 2 3 connection_released_def error_response_def)
qed

end
